theory Spec2Isabelle
  imports Main
begin

section \<open>Paths\<close>

text \<open>
  The program (\<^verbatim>\<open>dotfiles/logics.py\<close>) handles \<^verbatim>\<open>pathlib.Path\<close> values on a POSIX system.
  A path is its root flag and its list of components. \<^verbatim>\<open>Path(s)\<close> splits \<open>s\<close> at
  \<^verbatim>\<open>/\<close> and drops empty and \<^verbatim>\<open>.\<close> components, as \<^verbatim>\<open>pathlib\<close> does (the two-slash root
  \<^verbatim>\<open>//\<close> is not distinguished from \<^verbatim>\<open>/\<close>). The operator \<^verbatim>\<open>a / b\<close> is \<open>joinpath\<close>: an
  absolute right operand replaces the left one.
\<close>

datatype path = PosixPath (is_absolute: bool) (names: "string list")

fun split_slash :: "string \<Rightarrow> string list" where
  "split_slash [] = [[]]"
| "split_slash (c # cs) =
     (if c = CHR ''/'' then [] # split_slash cs
      else (case split_slash cs of [] \<Rightarrow> [[c]] | x # xs \<Rightarrow> (c # x) # xs))"

definition Path :: "string \<Rightarrow> path" where
  "Path s = PosixPath (take 1 s = ''/'')
     (filter (\<lambda>n. n \<noteq> [] \<and> n \<noteq> ''.'') (split_slash s))"

definition joinpath :: "path \<Rightarrow> path \<Rightarrow> path" where
  "joinpath a b =
     (if is_absolute b then b else PosixPath (is_absolute a) (names a @ names b))"

definition parent :: "path \<Rightarrow> path" where
  "parent p = PosixPath (is_absolute p) (butlast (names p))"

fun join_names :: "string list \<Rightarrow> string" where
  "join_names [] = []"
| "join_names [n] = n"
| "join_names (n # m # ns) = n @ ''/'' @ join_names (m # ns)"

text \<open>\<^verbatim>\<open>str(p)\<close>, the text that \<^verbatim>\<open>str.format\<close> puts into a template.\<close>

definition str :: "path \<Rightarrow> string" where
  "str p =
     (if is_absolute p then ''/'' @ join_names (names p)
      else if names p = [] then ''.'' else join_names (names p))"

text \<open>A path lies under a directory when the directory's components are a prefix of its own.\<close>

definition under :: "path \<Rightarrow> path \<Rightarrow> bool" where
  "under d p \<longleftrightarrow>
     is_absolute p = is_absolute d \<and> take (length (names d)) (names p) = names d"

section \<open>The file system and the process environment\<close>

text \<open>
  The file system is a flat map from paths to what is there: a regular file with its
  content, a directory, or a symbolic link with its target. Scope of the model:
  \<^item> every file has one name: a path is looked up as it is written (no \<^verbatim>\<open>..\<close>, no
    second name through the working directory or a hard link);
  \<^item> symbolic links are followed at the last component of a path, as \<^verbatim>\<open>stat\<close> does, at
    most \<open>SYMLOOP_MAX\<close> of them; the directories on the way to it are real directories;
  \<^item> a new entry needs its parent directory (\<^verbatim>\<open>ENOENT\<close>, \<^verbatim>\<open>ENOTDIR\<close> otherwise);
  \<^item> permissions, disk space and interrupts are not modelled.
  The rest of the record is the environment of the process: the module's \<^verbatim>\<open>__file__\<close>
  (an absolute path, given by its components), the programs \<^verbatim>\<open>shutil.which\<close> finds, the
  console, the names \<^verbatim>\<open>tempfile\<close> hands out, and the network: whether \<^verbatim>\<open>git clone\<close>
  works, what the HTTP server answers, and a log of the clones and requests made.
\<close>

datatype node = File string | Dir | Symlink path

datatype py_error =
    AssertionError
  | FileExistsError
  | FileNotFoundError
  | NotADirectoryError
  | IsADirectoryError
  | TooManyLinksError
  | SameFileError
  | GitCommandError
  | ConnectionError

datatype ExitCode = SUCCESS | SKIP

record world =
  files :: "path \<rightharpoonup> node"
  module_file :: "string list"
  programs :: "string \<Rightarrow> bool"
  stdout :: "string list"
  tmp_supply :: "nat \<Rightarrow> path"
  tmp_counter :: nat
  clone_ok :: bool
  http_response :: "py_error + int \<times> string"
  clones :: "(string \<times> path) list"
  http_gets :: "string list"

type_synonym 'a result = "(py_error + 'a) \<times> world"

definition and_then ::
  "(world \<Rightarrow> 'a result) \<Rightarrow> ('a \<Rightarrow> world \<Rightarrow> 'b result) \<Rightarrow> world \<Rightarrow> 'b result" where
  "and_then m f w = (case m w of (Inl e, w') \<Rightarrow> (Inl e, w') | (Inr a, w') \<Rightarrow> f a w')"

definition SYMLOOP_MAX :: nat where
  "SYMLOOP_MAX = 40"

text \<open>
  \<open>resolve n fs p\<close> follows the symbolic links at \<open>p\<close> with \<open>n\<close> look-ups to spend, and
  returns the path of the file or directory reached. A relative target is read from the
  directory of the link.
\<close>

fun resolve :: "nat \<Rightarrow> (path \<rightharpoonup> node) \<Rightarrow> path \<Rightarrow> path option" where
  "resolve 0 fs p = None"
| "resolve (Suc n) fs p =
     (case fs p of
        None \<Rightarrow> None
      | Some (Symlink t) \<Rightarrow> resolve n fs (joinpath (parent p) t)
      | Some _ \<Rightarrow> Some p)"

definition stat :: "(path \<rightharpoonup> node) \<Rightarrow> path \<Rightarrow> path option" where
  "stat fs p = resolve (Suc SYMLOOP_MAX) fs p"

text \<open>
  \<^verbatim>\<open>Path.exists\<close>, \<^verbatim>\<open>Path.is_file\<close> and \<^verbatim>\<open>Path.is_dir\<close> follow symbolic links and answer
  \<^verbatim>\<open>False\<close> for a dangling or looping link; \<^verbatim>\<open>Path.is_symlink\<close> looks at the entry itself.
\<close>

definition exists :: "world \<Rightarrow> path \<Rightarrow> bool" where
  "exists w p \<longleftrightarrow> stat (files w) p \<noteq> None"

definition is_symlink :: "world \<Rightarrow> path \<Rightarrow> bool" where
  "is_symlink w p = (case files w p of Some (Symlink t) \<Rightarrow> True | _ \<Rightarrow> False)"

definition is_file :: "world \<Rightarrow> path \<Rightarrow> bool" where
  "is_file w p =
     (case stat (files w) p of
        None \<Rightarrow> False
      | Some q \<Rightarrow> (case files w q of Some (File c) \<Rightarrow> True | _ \<Rightarrow> False))"

definition is_dir :: "world \<Rightarrow> path \<Rightarrow> bool" where
  "is_dir w p =
     (case stat (files w) p of
        None \<Rightarrow> False
      | Some q \<Rightarrow> (case files w q of Some Dir \<Rightarrow> True | _ \<Rightarrow> False))"

text \<open>\<^verbatim>\<open>Path.stat().st_size\<close> of a regular file (through links); the tests check it is positive.\<close>

definition st_size :: "world \<Rightarrow> path \<Rightarrow> nat option" where
  "st_size w p =
     (case stat (files w) p of
        None \<Rightarrow> None
      | Some q \<Rightarrow> (case files w q of Some (File c) \<Rightarrow> Some (length c) | _ \<Rightarrow> None))"

text \<open>The content read at a path (through links), if a regular file is there.\<close>

definition read_text :: "world \<Rightarrow> path \<Rightarrow> string option" where
  "read_text w p =
     (case stat (files w) p of
        None \<Rightarrow> None
      | Some q \<Rightarrow> (case files w q of Some (File c) \<Rightarrow> Some c | _ \<Rightarrow> None))"

text \<open>\<^verbatim>\<open>Path.unlink\<close> removes the entry itself, never the target of a link.\<close>

definition unlink :: "path \<Rightarrow> world \<Rightarrow> unit result" where
  "unlink p w =
     (case files w p of
        None \<Rightarrow> (Inl FileNotFoundError, w)
      | Some Dir \<Rightarrow> (Inl IsADirectoryError, w)
      | Some _ \<Rightarrow> (Inr (), w\<lparr>files := (files w)(p := None)\<rparr>))"

text \<open>
  \<^verbatim>\<open>p.symlink_to(target)\<close> is \<^verbatim>\<open>os.symlink(target, p)\<close>: it needs the directory of \<open>p\<close>
  and fails with \<^verbatim>\<open>FileExistsError\<close> when anything is at \<open>p\<close>, a dangling link included.
\<close>

definition symlink_to :: "path \<Rightarrow> path \<Rightarrow> world \<Rightarrow> unit result" where
  "symlink_to p target w =
     (case files w (parent p) of
        None \<Rightarrow> (Inl FileNotFoundError, w)
      | Some Dir \<Rightarrow>
          (if files w p \<noteq> None then (Inl FileExistsError, w)
           else (Inr (), w\<lparr>files := (files w)(p \<mapsto> Symlink target)\<rparr>))
      | Some _ \<Rightarrow> (Inl NotADirectoryError, w))"

text \<open>
  Opening a path for writing follows symbolic links, truncates a regular file, and creates
  the file where nothing is (also at the end of a dangling link).
\<close>

fun resolve_w :: "nat \<Rightarrow> (path \<rightharpoonup> node) \<Rightarrow> path \<Rightarrow> py_error + path" where
  "resolve_w 0 fs p = Inl TooManyLinksError"
| "resolve_w (Suc n) fs p =
     (case fs p of
        None \<Rightarrow>
          (case fs (parent p) of
             None \<Rightarrow> Inl FileNotFoundError
           | Some Dir \<Rightarrow> Inr p
           | Some _ \<Rightarrow> Inl NotADirectoryError)
      | Some (File c) \<Rightarrow> Inr p
      | Some Dir \<Rightarrow> Inl IsADirectoryError
      | Some (Symlink t) \<Rightarrow> resolve_w n fs (joinpath (parent p) t))"

definition write_text :: "path \<Rightarrow> string \<Rightarrow> world \<Rightarrow> unit result" where
  "write_text p c w =
     (case resolve_w (Suc SYMLOOP_MAX) (files w) p of
        Inl e \<Rightarrow> (Inl e, w)
      | Inr q \<Rightarrow> (Inr (), w\<lparr>files := (files w)(q \<mapsto> File c)\<rparr>))"

text \<open>
  \<^verbatim>\<open>shutil.copy(src, dst)\<close>: into the directory when \<open>dst\<close> is one, \<^verbatim>\<open>SameFileError\<close> when
  both paths reach the same file, otherwise the content of \<open>src\<close> written to \<open>dst\<close>.
\<close>

definition samefile :: "world \<Rightarrow> path \<Rightarrow> path \<Rightarrow> bool" where
  "samefile w a b =
     (case (stat (files w) a, stat (files w) b) of
        (Some x, Some y) \<Rightarrow> x = y
      | _ \<Rightarrow> False)"

definition copy :: "path \<Rightarrow> path \<Rightarrow> world \<Rightarrow> unit result" where
  "copy src dst w =
     (let dst' = (if is_dir w dst \<and> names src \<noteq> []
                  then joinpath dst (PosixPath False [last (names src)]) else dst)
      in if samefile w src dst' then (Inl SameFileError, w)
         else (case stat (files w) src of
                 None \<Rightarrow> (Inl FileNotFoundError, w)
               | Some q \<Rightarrow>
                   (case files w q of
                      Some (File c) \<Rightarrow> write_text dst' c w
                    | _ \<Rightarrow> (Inl IsADirectoryError, w))))"

section \<open>The program\<close>

text \<open>\<^verbatim>\<open>RESOURCES_PATH = pathlib.Path(__file__).parent / "resources"\<close>\<close>

definition RESOURCES_PATH :: "world \<Rightarrow> path" where
  "RESOURCES_PATH w = joinpath (parent (PosixPath True (module_file w))) (Path ''resources'')"

record Option =
  dest_dir :: path
  overwrite :: bool

subsection \<open>Placement by symbolic link\<close>

text \<open>
  \<^verbatim>\<open>SymLink.run\<close>. The failed \<^verbatim>\<open>assert\<close> is the error \<open>AssertionError\<close>; an exception of
  a library call leaves \<open>run\<close> with the world as it is at that moment.
\<close>

definition SymLink_src :: "world \<Rightarrow> string \<Rightarrow> path" where
  "SymLink_src w filename = joinpath (RESOURCES_PATH w) (Path filename)"

definition SymLink_dst :: "Option \<Rightarrow> string \<Rightarrow> path" where
  "SymLink_dst options filename = joinpath (dest_dir options) (Path filename)"

definition SymLink_link :: "path \<Rightarrow> path \<Rightarrow> world \<Rightarrow> ExitCode result" where
  "SymLink_link dst src = and_then (symlink_to dst src) (\<lambda>_ w. (Inr SUCCESS, w))"

definition SymLink_run :: "Option \<Rightarrow> string \<Rightarrow> world \<Rightarrow> ExitCode result" where
  "SymLink_run options filename w =
     (let src = SymLink_src w filename;
          dst = SymLink_dst options filename
      in if \<not> exists w src then (Inl AssertionError, w)
         else if exists w dst then
           (if overwrite options then
              (if is_symlink w dst
               then and_then (unlink dst) (\<lambda>_. SymLink_link dst src) w
               else SymLink_link dst src w)
            else (Inr SKIP, w))
         else SymLink_link dst src w)"

subsection \<open>Placement by copy\<close>

text \<open>\<^verbatim>\<open>CopyFile.run\<close>; \<open>CopyFile_dst\<close> is its first line, the effective destination.\<close>

definition CopyFile_dst :: "Option \<Rightarrow> path \<Rightarrow> path" where
  "CopyFile_dst options dst_path = joinpath (dest_dir options) dst_path"

definition CopyFile_copy :: "path \<Rightarrow> path \<Rightarrow> world \<Rightarrow> ExitCode result" where
  "CopyFile_copy src_path dst = and_then (copy src_path dst) (\<lambda>_ w. (Inr SUCCESS, w))"

definition CopyFile_run :: "Option \<Rightarrow> path \<Rightarrow> path \<Rightarrow> world \<Rightarrow> ExitCode result" where
  "CopyFile_run options src_path dst_path w =
     (let dst = CopyFile_dst options dst_path
      in if \<not> exists w src_path then (Inl AssertionError, w)
         else if exists w dst then
           (if overwrite options then
              (if is_symlink w dst
               then and_then (unlink dst) (\<lambda>_. CopyFile_copy src_path dst) w
               else if is_file w dst then CopyFile_copy src_path dst w
               else (Inr SKIP, w))
            else (Inr SKIP, w))
         else CopyFile_copy src_path dst w)"

subsection \<open>Library calls of the installers\<close>

text \<open>
  \<^verbatim>\<open>program_exist\<close>: the answer of \<^verbatim>\<open>shutil.which\<close>, and a warning on the console when
  the program is missing. The installers drop the answer.
\<close>

definition program_exist :: "string \<Rightarrow> string \<Rightarrow> world \<Rightarrow> bool \<times> world" where
  "program_exist base program w =
     (if programs w program then (True, w)
      else (False, w\<lparr>stdout := stdout w @
        [''[warning] '' @ base @ '' needs '' @ program @ ''. But '' @ program @ '' not found'']\<rparr>))"

text \<open>
  \<^verbatim>\<open>tempfile.NamedTemporaryFile(mode="w")\<close> creates an empty file under the next name of the
  supply; it never takes a name in use. \<open>f_write\<close> is \<^verbatim>\<open>f.write(text); f.flush()\<close> on that
  file. Leaving the \<^verbatim>\<open>with\<close> block, by \<^verbatim>\<open>return\<close> or by an exception, deletes the file.
\<close>

definition NamedTemporaryFile :: "world \<Rightarrow> path result" where
  "NamedTemporaryFile w =
     (let f = tmp_supply w (tmp_counter w);
          w1 = w\<lparr>tmp_counter := Suc (tmp_counter w)\<rparr>
      in if files w f \<noteq> None then (Inl FileExistsError, w1)
         else (Inr f, w1\<lparr>files := (files w)(f \<mapsto> File [])\<rparr>))"

definition f_write :: "path \<Rightarrow> string \<Rightarrow> world \<Rightarrow> unit result" where
  "f_write f c w = (Inr (), w\<lparr>files := (files w)(f \<mapsto> File c)\<rparr>)"

definition with_NamedTemporaryFile ::
  "(path \<Rightarrow> world \<Rightarrow> 'a result) \<Rightarrow> world \<Rightarrow> 'a result" where
  "with_NamedTemporaryFile body w =
     (case NamedTemporaryFile w of
        (Inl e, w1) \<Rightarrow> (Inl e, w1)
      | (Inr f, w1) \<Rightarrow>
          (case body f w1 of (r, w2) \<Rightarrow> (r, w2\<lparr>files := (files w2)(f := None)\<rparr>)))"

text \<open>
  \<^verbatim>\<open>os.mkdir\<close> and \<^verbatim>\<open>Path.mkdir(parents=True)\<close>, which creates the missing parents first
  (with \<^verbatim>\<open>exist_ok=True\<close> for them) and fails when the path itself is taken.
\<close>

definition os_mkdir :: "path \<Rightarrow> world \<Rightarrow> unit result" where
  "os_mkdir p w =
     (case files w (parent p) of
        None \<Rightarrow> (Inl FileNotFoundError, w)
      | Some Dir \<Rightarrow>
          (if files w p \<noteq> None then (Inl FileExistsError, w)
           else (Inr (), w\<lparr>files := (files w)(p \<mapsto> Dir)\<rparr>))
      | Some _ \<Rightarrow> (Inl NotADirectoryError, w))"

definition mkdir :: "bool \<Rightarrow> path \<Rightarrow> world \<Rightarrow> unit result" where
  "mkdir exist_ok p w =
     (case os_mkdir p w of
        (Inl e, w') \<Rightarrow>
          (if e \<noteq> FileNotFoundError \<and> exist_ok \<and> is_dir w p then (Inr (), w)
           else (Inl e, w))
      | (Inr u, w') \<Rightarrow> (Inr u, w'))"

function mkdir_parents :: "bool \<Rightarrow> path \<Rightarrow> world \<Rightarrow> unit result" where
  "mkdir_parents exist_ok p w =
     (case os_mkdir p w of
        (Inl e, w') \<Rightarrow>
          (if e = FileNotFoundError then
             (if parent p = p then (Inl e, w)
              else (case mkdir_parents True (parent p) w of
                      (Inl e1, w1) \<Rightarrow> (Inl e1, w1)
                    | (Inr u, w1) \<Rightarrow> mkdir exist_ok p w1))
           else if exist_ok \<and> is_dir w p then (Inr (), w)
           else (Inl e, w))
      | (Inr u, w') \<Rightarrow> (Inr u, w'))"
  by pat_completeness auto
termination
  apply (relation "measure (\<lambda>(e, p, w). length (names p))")
   apply simp
  subgoal for exist_ok p
    by (cases p; cases "names p") (auto simp: parent_def)
  done

text \<open>
  \<^verbatim>\<open>Repo.clone_from(url, p)\<close> runs \<^verbatim>\<open>git clone\<close>: it needs the network, refuses a path
  that is taken, creates the leading directories and the directory of the clone (the files
  inside the clone are not modelled), and is logged in \<open>clones\<close> when it has worked.
\<close>

definition clone_from :: "string \<Rightarrow> path \<Rightarrow> world \<Rightarrow> unit result" where
  "clone_from url p w =
     (if \<not> clone_ok w \<or> files w p \<noteq> None then (Inl GitCommandError, w)
      else (case mkdir_parents False p w of
              (Inl e, w') \<Rightarrow> (Inl GitCommandError, w)
            | (Inr u, w') \<Rightarrow> (Inr (), w'\<lparr>clones := clones w' @ [(url, p)]\<rparr>)))"

text \<open>
  \<^verbatim>\<open>requests.get(url)\<close>: the request is logged; the answer is an exception or a response
  with its \<^verbatim>\<open>status_code\<close> and \<^verbatim>\<open>text\<close>.
\<close>

definition requests_get :: "string \<Rightarrow> world \<Rightarrow> (int \<times> string) result" where
  "requests_get url w =
     (let w1 = w\<lparr>http_gets := http_gets w @ [url]\<rparr>
      in case http_response w of Inl e \<Rightarrow> (Inl e, w1) | Inr r \<Rightarrow> (Inr r, w1))"

subsection \<open>Templates\<close>

text \<open>
  A triple-quoted literal that starts and ends at a line break: a line feed, then every
  line with its line feed. \<open>format1\<close> is \<^verbatim>\<open>template.format(arg)\<close> for a template with one
  \<^verbatim>\<open>{}\<close> field and no other brace; \<open>strip\<close> is \<^verbatim>\<open>str.strip()\<close> on ASCII text.
\<close>

definition text_block :: "string list \<Rightarrow> string" where
  "text_block ls = CHR 0x0A # concat (map (\<lambda>l. l @ [CHR 0x0A]) ls)"

definition GIT_CONFIG_TEMPLATE :: string where
  "GIT_CONFIG_TEMPLATE = text_block
     [''[include]'',
      ''    path = {}'',
      ''[filter '' @ [CHR 0x22] @ ''lfs'' @ [CHR 0x22] @ '']'',
      ''    clean = git-lfs clean -- %f'',
      ''    smudge = git-lfs smudge -- %f'',
      ''    process = git-lfs filter-process'',
      ''    required = true'']"

definition ZSHRC_TEMPLATE :: string where
  "ZSHRC_TEMPLATE = text_block [''ZSHRC_FILE={}'', ''. $ZSHRC_FILE'']"

definition ZSHENV_TEMPLATE :: string where
  "ZSHENV_TEMPLATE = text_block [''ZSHENV_FILE={}'', ''. $ZSHENV_FILE'']"

definition VIMRC_TEMPLATE :: string where
  "VIMRC_TEMPLATE = ''execute '' @ [CHR 0x27] @ ''source {}'' @ [CHR 0x27]"

fun format1 :: "string \<Rightarrow> string \<Rightarrow> string" where
  "format1 (c # d # cs) a =
     (if c = CHR ''{'' \<and> d = CHR ''}'' then a @ cs else c # format1 (d # cs) a)"
| "format1 cs a = cs"

definition isspace :: "char \<Rightarrow> bool" where
  "isspace c \<longleftrightarrow>
     c \<in> set [CHR 0x09, CHR 0x0A, CHR 0x0B, CHR 0x0C, CHR 0x0D,
              CHR 0x1C, CHR 0x1D, CHR 0x1E, CHR 0x1F, CHR 0x20]"

definition strip :: "string \<Rightarrow> string" where
  "strip s = rev (dropWhile isspace (rev (dropWhile isspace s)))"

subsection \<open>The installers\<close>

datatype Logic = TMux | Vimperator | Gdb | Fvwm2 | Git | Zsh | Vim | CommandLineHelper

fun name :: "Logic \<Rightarrow> string" where
  "name TMux = ''tmux''"
| "name Vimperator = ''vimperator''"
| "name Gdb = ''gdb''"
| "name Fvwm2 = ''fvwm2''"
| "name Git = ''git''"
| "name Zsh = ''zsh''"
| "name Vim = ''vim''"
| "name CommandLineHelper = ''command-line helper''"

definition TMux_run :: "Option \<Rightarrow> world \<Rightarrow> ExitCode result" where
  "TMux_run options w =
     (let w1 = snd (program_exist (name TMux) ''tmux'' w);
          w2 = snd (program_exist (name TMux) ''xsel'' w1)
      in SymLink_run options ''.tmux.conf'' w2)"

definition Vimperator_run :: "Option \<Rightarrow> world \<Rightarrow> ExitCode result" where
  "Vimperator_run options w = SymLink_run options ''.vimperatorrc'' w"

definition Gdb_run :: "Option \<Rightarrow> world \<Rightarrow> ExitCode result" where
  "Gdb_run options w =
     (let w1 = snd (program_exist (name Gdb) ''gdb'' w)
      in SymLink_run options ''.gdbinit'' w1)"

definition Fvwm2_run :: "Option \<Rightarrow> world \<Rightarrow> ExitCode result" where
  "Fvwm2_run options w =
     (let w1 = snd (program_exist (name Fvwm2) ''fvwm2'' w)
      in SymLink_run options ''.fvwm2rc'' w1)"

text \<open>
  \<^verbatim>\<open>Git.run\<close>. \<open>Git_dst_path\<close> is the \<^verbatim>\<open>dst_path\<close> argument it hands to \<^verbatim>\<open>CopyFile\<close>, the
  destination directory already joined in.
\<close>

definition Git_dst_path :: "Option \<Rightarrow> path" where
  "Git_dst_path options = joinpath (dest_dir options) (Path ''.gitconfig'')"

definition Git_run :: "Option \<Rightarrow> world \<Rightarrow> ExitCode result" where
  "Git_run options w =
     (let w1 = snd (program_exist (name Git) ''git'' w);
          w2 = snd (program_exist (name Git) ''git-lfs'' w1)
      in with_NamedTemporaryFile (\<lambda>f w.
           let src = joinpath (RESOURCES_PATH w) (Path ''.gitconfig'')
           in if \<not> exists w src then (Inl AssertionError, w)
              else and_then (f_write f (strip (format1 GIT_CONFIG_TEMPLATE (str src))))
                     (\<lambda>_. CopyFile_run options f (Git_dst_path options)) w) w2)"

text \<open>
  \<^verbatim>\<open>Zsh.run\<close>: the clone, then the two \<^verbatim>\<open>with\<close> blocks. Each block returns from \<open>run\<close>
  when its copy did not give \<open>SUCCESS\<close>.
\<close>

definition ZSH_COMPLETIONS_URL :: string where
  "ZSH_COMPLETIONS_URL = ''https://github.com/zsh-users/zsh-completions.git''"

definition Zsh_completions :: "Option \<Rightarrow> path" where
  "Zsh_completions options = joinpath (dest_dir options) (Path ''.zsh-completions'')"

definition Zsh_clone :: "Option \<Rightarrow> world \<Rightarrow> unit result" where
  "Zsh_clone options w =
     (let zsh_completions = Zsh_completions options
      in if \<not> exists w zsh_completions
         then clone_from ZSH_COMPLETIONS_URL zsh_completions w
         else (Inr (), w))"

definition Zsh_dst_path :: "Option \<Rightarrow> string \<Rightarrow> path" where
  "Zsh_dst_path options target = joinpath (dest_dir options) (Path target)"

definition Zsh_zshrc :: "Option \<Rightarrow> world \<Rightarrow> ExitCode result" where
  "Zsh_zshrc options =
     with_NamedTemporaryFile (\<lambda>f w.
       let conf_path = joinpath (RESOURCES_PATH w) (Path ''.zshrc'')
       in if \<not> exists w conf_path then (Inl AssertionError, w)
          else and_then (f_write f (strip (format1 ZSHRC_TEMPLATE (str conf_path))))
                 (\<lambda>_. CopyFile_run options f (Zsh_dst_path options ''.zshrc'')) w)"

definition Zsh_zshenv :: "Option \<Rightarrow> world \<Rightarrow> ExitCode result" where
  "Zsh_zshenv options =
     with_NamedTemporaryFile (\<lambda>f w.
       let conf_path = joinpath (RESOURCES_PATH w) (Path ''.zshenv'')
       in if \<not> exists w conf_path then (Inl AssertionError, w)
          else and_then (f_write f (strip (format1 ZSHENV_TEMPLATE (str conf_path))))
                 (\<lambda>_. CopyFile_run options f (Zsh_dst_path options ''.zshenv'')) w)"

definition Zsh_run :: "Option \<Rightarrow> world \<Rightarrow> ExitCode result" where
  "Zsh_run options w =
     (let w1 = snd (program_exist (name Zsh) ''zsh'' w)
      in and_then (Zsh_clone options) (\<lambda>_.
           and_then (Zsh_zshrc options) (\<lambda>ret.
             if ret \<noteq> SUCCESS then (\<lambda>w. (Inr ret, w))
             else and_then (Zsh_zshenv options) (\<lambda>ret w.
                    if ret \<noteq> SUCCESS then (Inr ret, w) else (Inr ret, w)))) w1)"

text \<open>\<^verbatim>\<open>Vim.run\<close>: the directory, the plug-in manager, the wrapper \<^verbatim>\<open>.vimrc\<close>.\<close>

definition PLUG_VIM_URL :: string where
  "PLUG_VIM_URL = ''https://raw.githubusercontent.com/junegunn/vim-plug/master/plug.vim''"

definition Vim_dot_vim :: "Option \<Rightarrow> path" where
  "Vim_dot_vim options = joinpath (joinpath (dest_dir options) (Path ''.vim'')) (Path ''autoload'')"

definition Vim_mkdir :: "Option \<Rightarrow> world \<Rightarrow> unit result" where
  "Vim_mkdir options w =
     (let dot_vim = Vim_dot_vim options
      in if \<not> exists w dot_vim then mkdir_parents False dot_vim w else (Inr (), w))"

definition Vim_plug_vim :: "Option \<Rightarrow> path" where
  "Vim_plug_vim options = joinpath (Vim_dot_vim options) (Path ''plug.vim'')"

definition Vim_plug :: "Option \<Rightarrow> world \<Rightarrow> unit result" where
  "Vim_plug options w =
     (let plug_vim = Vim_plug_vim options
      in if \<not> exists w plug_vim \<or> overwrite options then
           and_then (requests_get PLUG_VIM_URL) (\<lambda>response w.
             if fst response \<noteq> 200 then (Inl AssertionError, w)
             else write_text plug_vim (snd response) w) w
         else (Inr (), w))"

definition Vim_dst_path :: "Option \<Rightarrow> path" where
  "Vim_dst_path options = joinpath (dest_dir options) (Path ''.vimrc'')"

definition Vim_vimrc :: "Option \<Rightarrow> world \<Rightarrow> ExitCode result" where
  "Vim_vimrc options =
     with_NamedTemporaryFile (\<lambda>f w.
       let conf_path = joinpath (RESOURCES_PATH w) (Path ''.vimrc'')
       in if \<not> exists w conf_path then (Inl AssertionError, w)
          else and_then (f_write f (format1 VIMRC_TEMPLATE (str conf_path)))
                 (\<lambda>_. CopyFile_run options f (Vim_dst_path options)) w)"

definition Vim_run :: "Option \<Rightarrow> world \<Rightarrow> ExitCode result" where
  "Vim_run options w =
     (let w1 = snd (program_exist (name Vim) ''vim'' w)
      in and_then (Vim_mkdir options) (\<lambda>_.
           and_then (Vim_plug options) (\<lambda>_. Vim_vimrc options)) w1)"

definition CommandLineHelper_run :: "Option \<Rightarrow> world \<Rightarrow> ExitCode result" where
  "CommandLineHelper_run options w =
     (let w1 = snd (program_exist (name CommandLineHelper) ''peco'' w);
          w2 = snd (program_exist (name CommandLineHelper) ''fzf'' w1);
          w3 = snd (program_exist (name CommandLineHelper) ''direnv'' w2)
      in (Inr SUCCESS, w3))"

fun run :: "Logic \<Rightarrow> Option \<Rightarrow> world \<Rightarrow> ExitCode result" where
  "run TMux = TMux_run"
| "run Vimperator = Vimperator_run"
| "run Gdb = Gdb_run"
| "run Fvwm2 = Fvwm2_run"
| "run Git = Git_run"
| "run Zsh = Zsh_run"
| "run Vim = Vim_run"
| "run CommandLineHelper = CommandLineHelper_run"

section \<open>Example worlds\<close>

text \<open>
  Concrete worlds for the examples below: the module is
  \<^verbatim>\<open>/opt/dotfiles/dotfiles/logics.py\<close>, its resources are regular files, every program is
  installed, the network works. \<open>home\<close> is the destination directory \<^verbatim>\<open>/home/u\<close>;
  \<open>home_with n x\<close> has \<open>x\<close> at \<^verbatim>\<open>/home/u/n\<close>, \<open>no_home\<close> has no \<^verbatim>\<open>/home/u\<close> at all.
\<close>

definition demo_world :: "(path \<times> node) list \<Rightarrow> world" where
  "demo_world entries =
     \<lparr>files = map_of entries,
      module_file = [''opt'', ''dotfiles'', ''dotfiles'', ''logics.py''],
      programs = (\<lambda>_. True),
      stdout = [],
      tmp_supply = (\<lambda>n. PosixPath True [''tmp'', ''tmpfile'']),
      tmp_counter = 0,
      clone_ok = True,
      http_response = Inr (200, ''plug''),
      clones = [],
      http_gets = []\<rparr>"

definition home :: path where
  "home = PosixPath True [''home'', ''u'']"

definition demo_resources :: "(path \<times> node) list" where
  "demo_resources =
     map (\<lambda>(n, c). (PosixPath True [''opt'', ''dotfiles'', ''dotfiles'', ''resources'', n], File c))
       [(''.tmux.conf'', ''set -g mouse on''),
        (''.vimperatorrc'', ''set gui=none''),
        (''.gdbinit'', ''set history save on''),
        (''.fvwm2rc'', ''DeskTopSize 2x2''),
        (''.gitconfig'', ''[core]''),
        (''.zshrc'', ''autoload -U compinit''),
        (''.zshenv'', ''export LANG=C''),
        (''.vimrc'', ''set number'')]"

definition keep :: Option where
  "keep = \<lparr>dest_dir = home, overwrite = False\<rparr>"
definition replace :: Option where
  "replace = \<lparr>dest_dir = home, overwrite = True\<rparr>"

definition fresh_home :: world where
  "fresh_home = demo_world ((home, Dir) # demo_resources)"

definition home_with :: "string \<Rightarrow> node \<Rightarrow> world" where
  "home_with n x = demo_world ((PosixPath True [''home'', ''u'', n], x) # (home, Dir) # demo_resources)"

definition no_home :: world where
  "no_home = demo_world demo_resources"

definition res_gitconfig :: path where
  "res_gitconfig = PosixPath True [''opt'', ''dotfiles'', ''dotfiles'', ''resources'', ''.gitconfig'']"

text \<open>
  \<open>home_tree\<close> puts entries below \<^verbatim>\<open>/home/u\<close>; \<open>out_keep\<close> and \<open>out_world\<close> are the relative
  destination directory \<^verbatim>\<open>out\<close> in the working directory. \<open>used_home\<close> is a home directory
  in use: a \<^verbatim>\<open>.bashrc\<close>, a \<^verbatim>\<open>.gdbinit\<close> that is a link to it, an old \<^verbatim>\<open>.gitconfig\<close>.
\<close>

definition home_tree :: "(string list \<times> node) list \<Rightarrow> world" where
  "home_tree entries =
     demo_world (map (\<lambda>(ns, x). (PosixPath True ([''home'', ''u''] @ ns), x)) entries @
                 (home, Dir) # demo_resources)"

definition used_home :: world where
  "used_home =
     home_tree [([''.bashrc''], File ''alias ll=ls''),
                ([''.gdbinit''], Symlink (PosixPath False [''.bashrc''])),
                ([''.gitconfig''], File ''[user]'')]"

definition out_keep :: Option where
  "out_keep = \<lparr>dest_dir = Path ''out'', overwrite = False\<rparr>"

definition out_world :: world where
  "out_world = demo_world ((Path ''out'', Dir) # demo_resources)"

section \<open>Notions of the specification\<close>

text \<open>
  \<open>child d n\<close> is the entry \<open>n\<close> of the directory \<open>d\<close>. A directory is empty when it is
  there and nothing is under it. The simple installers place one resource by a symbolic
  link. \<open>spec_git_config_wrapper\<close> is the text of the generated \<^verbatim>\<open>.gitconfig\<close> as the
  specification gives it, for the resource path put into it.
\<close>

definition child :: "path \<Rightarrow> string \<Rightarrow> path" where
  "child d n = PosixPath (is_absolute d) (names d @ [n])"


definition empty_dir :: "(path \<rightharpoonup> node) \<Rightarrow> path \<Rightarrow> bool" where
  "empty_dir fs d \<longleftrightarrow> fs d = Some Dir \<and> (\<forall>p. under d p \<and> p \<noteq> d \<longrightarrow> fs p = None)"

definition simple_installers :: "(Logic \<times> string) list" where
  "simple_installers =
     [(TMux, ''.tmux.conf''), (Vimperator, ''.vimperatorrc''), (Gdb, ''.gdbinit''),
      (Fvwm2, ''.fvwm2rc'')]"

definition spec_git_config_wrapper :: "string \<Rightarrow> string" where
  "spec_git_config_wrapper resource_path =
     ''[include]'' @ [CHR 0x0A] @
     ''    path = '' @ resource_path @ [CHR 0x0A] @
     ''[filter '' @ [CHR 0x22] @ ''lfs'' @ [CHR 0x22] @ '']'' @ [CHR 0x0A] @
     ''    clean = git-lfs clean -- %f'' @ [CHR 0x0A] @
     ''    smudge = git-lfs smudge -- %f'' @ [CHR 0x0A] @
     ''    process = git-lfs filter-process'' @ [CHR 0x0A] @
     ''    required = true''"


section \<open>Repeated runs\<close>

text \<open>
  \<open>Zsh_copies\<close> is the part of \<^verbatim>\<open>Zsh.run\<close> after the clone. \<open>Zsh_runs d bs w\<close> runs the Zsh
  installer once for every flag of \<open>bs\<close>, taken as \<open>overwrite\<close>, on the destination \<open>d\<close>,
  each run in the world the one before left, whatever its outcome. \<open>run_times i options n w\<close>
  lists the outcomes and worlds of \<open>n\<close> runs of an installer, one after the other.
\<close>

definition Zsh_copies :: "Option \<Rightarrow> world \<Rightarrow> ExitCode result" where
  "Zsh_copies options =
     and_then (Zsh_zshrc options) (\<lambda>ret.
       if ret \<noteq> SUCCESS then (\<lambda>w. (Inr ret, w))
       else and_then (Zsh_zshenv options) (\<lambda>ret w.
              if ret \<noteq> SUCCESS then (Inr ret, w) else (Inr ret, w)))"


fun run_times :: "Logic \<Rightarrow> Option \<Rightarrow> nat \<Rightarrow> world \<Rightarrow> ((py_error + ExitCode) \<times> world) list" where
  "run_times i options 0 w = []"
| "run_times i options (Suc n) w =
     run i options w # run_times i options n (snd (run i options w))"

text \<open>
  What an installer places and what it needs: its destination files, its resources, and
  whether it copies through a temporary file. A file is non-empty when its size is known and
  positive, as the tests check.
\<close>

fun destination_files :: "Logic \<Rightarrow> path \<Rightarrow> path list" where
  "destination_files TMux d = [child d ''.tmux.conf'']"
| "destination_files Vimperator d = [child d ''.vimperatorrc'']"
| "destination_files Gdb d = [child d ''.gdbinit'']"
| "destination_files Fvwm2 d = [child d ''.fvwm2rc'']"
| "destination_files Git d = [child d ''.gitconfig'']"
| "destination_files Zsh d = [child d ''.zshrc'', child d ''.zshenv'']"
| "destination_files Vim d = [child d ''.vimrc'']"
| "destination_files CommandLineHelper d = []"

fun resource_names :: "Logic \<Rightarrow> string list" where
  "resource_names TMux = [''.tmux.conf'']"
| "resource_names Vimperator = [''.vimperatorrc'']"
| "resource_names Gdb = [''.gdbinit'']"
| "resource_names Fvwm2 = [''.fvwm2rc'']"
| "resource_names Git = [''.gitconfig'']"
| "resource_names Zsh = [''.zshrc'', ''.zshenv'']"
| "resource_names Vim = [''.vimrc'']"
| "resource_names CommandLineHelper = []"

fun copies :: "Logic \<Rightarrow> bool" where
  "copies Git = True"
| "copies Zsh = True"
| "copies Vim = True"
| "copies i = False"

definition nonempty_file :: "world \<Rightarrow> path \<Rightarrow> bool" where
  "nonempty_file w p = (case st_size w p of None \<Rightarrow> False | Some n \<Rightarrow> 0 < n)"

text \<open>
  What a run of an installer may write in the destination directory \<open>d\<close>,
  \<open>installer_paths\<close>: its destination files, and the clone of the Zsh installer, the
  directories and the plug-in manager of the Vim installer.
\<close>

fun installer_paths :: "Logic \<Rightarrow> path \<Rightarrow> path list" where
  "installer_paths Zsh d = child d ''.zsh-completions'' # destination_files Zsh d"
| "installer_paths Vim d =
     [child d ''.vim'', child (child d ''.vim'') ''autoload'',
      child (child (child d ''.vim'') ''autoload'') ''plug.vim''] @ destination_files Vim d"
| "installer_paths i d = destination_files i d"

text \<open>
  The environment of a run: temporary names that are free and are none of the given
  paths, a \<^verbatim>\<open>git clone\<close> that works, an answer 200 to the request.
\<close>

definition free_names :: "path list \<Rightarrow> world \<Rightarrow> bool" where
  "free_names ps w \<longleftrightarrow> (\<forall>k. files w (tmp_supply w k) = None \<and> tmp_supply w k \<notin> set ps)"

definition network_ok :: "Logic \<Rightarrow> world \<Rightarrow> bool" where
  "network_ok i w \<longleftrightarrow>
     (i = Zsh \<longrightarrow> clone_ok w) \<and> (i = Vim \<longrightarrow> (\<exists>body. http_response w = Inr (200, body)))"

text \<open>
  What a run with \<open>overwrite\<close> replaces at a destination path. Where a symbolic link is
  placed: nothing, or a symbolic link that resolves. Where a file is copied: nothing, a
  regular file, or a symbolic link that resolves. \<open>dest_state\<close> says so of every destination
  file of the installer; for the rest of its paths: \<^verbatim>\<open>.zsh-completions\<close> is free or exists,
  \<^verbatim>\<open>.vim/autoload\<close> is a directory or can be made (it is free, and \<^verbatim>\<open>.vim\<close> is free or a
  directory), \<^verbatim>\<open>plug.vim\<close> is free or a regular file.
\<close>

definition link_state :: "(path \<rightharpoonup> node) \<Rightarrow> path \<Rightarrow> bool" where
  "link_state fs p \<longleftrightarrow> fs p = None \<or> (\<exists>t. fs p = Some (Symlink t)) \<and> stat fs p \<noteq> None"

definition file_state :: "(path \<rightharpoonup> node) \<Rightarrow> path \<Rightarrow> bool" where
  "file_state fs p \<longleftrightarrow>
     fs p = None \<or> (\<exists>c. fs p = Some (File c)) \<or>
     (\<exists>t. fs p = Some (Symlink t)) \<and> stat fs p \<noteq> None"

fun dest_state :: "Logic \<Rightarrow> path \<Rightarrow> (path \<rightharpoonup> node) \<Rightarrow> bool" where
  "dest_state TMux d fs = link_state fs (child d ''.tmux.conf'')"
| "dest_state Vimperator d fs = link_state fs (child d ''.vimperatorrc'')"
| "dest_state Gdb d fs = link_state fs (child d ''.gdbinit'')"
| "dest_state Fvwm2 d fs = link_state fs (child d ''.fvwm2rc'')"
| "dest_state Git d fs = file_state fs (child d ''.gitconfig'')"
| "dest_state Zsh d fs \<longleftrightarrow>
     (fs (child d ''.zsh-completions'') = None \<or> stat fs (child d ''.zsh-completions'') \<noteq> None) \<and>
     file_state fs (child d ''.zshrc'') \<and> file_state fs (child d ''.zshenv'')"
| "dest_state Vim d fs \<longleftrightarrow>
     (fs (child (child d ''.vim'') ''autoload'') = Some Dir \<or>
      fs (child (child d ''.vim'') ''autoload'') = None \<and>
      (fs (child d ''.vim'') = None \<or> fs (child d ''.vim'') = Some Dir)) \<and>
     (fs (child (child (child d ''.vim'') ''autoload'') ''plug.vim'') = None \<or>
      (\<exists>c. fs (child (child (child d ''.vim'') ''autoload'') ''plug.vim'') = Some (File c))) \<and>
     file_state fs (child d ''.vimrc'')"
| "dest_state CommandLineHelper d fs = True"

text \<open>
  The worlds in which an installer can be run again and again, \<open>installable\<close>: the
  destination directory is there, whatever else it holds; the resources of the installer are
  non-empty regular files, none of them at a path the installer writes; the destination
  paths are as \<open>dest_state\<close> says; and for what the installer uses of them: an absolute
  destination directory and free temporary names, the network.
\<close>

definition installable :: "Logic \<Rightarrow> Option \<Rightarrow> world \<Rightarrow> bool" where
  "installable i options w \<longleftrightarrow>
     files w (dest_dir options) = Some Dir \<and>
     (\<forall>f \<in> set (resource_names i).
        \<exists>c. c \<noteq> [] \<and> files w (child (RESOURCES_PATH w) f) = Some (File c) \<and>
            child (RESOURCES_PATH w) f \<notin> set (installer_paths i (dest_dir options))) \<and>
     (copies i \<longrightarrow>
        is_absolute (dest_dir options) \<and> free_names (installer_paths i (dest_dir options)) w) \<and>
     network_ok i w \<and>
     dest_state i (dest_dir options) (files w)"

text \<open>
  Two relations between the world before and after a call: no directory has gone, and
  nothing but the given paths has changed.
\<close>

definition keeps_dirs :: "world \<Rightarrow> world \<Rightarrow> bool" where
  "keeps_dirs w w' \<longleftrightarrow> (\<forall>p. files w p = Some Dir \<longrightarrow> files w' p = Some Dir)"

definition only_at :: "path list \<Rightarrow> world \<Rightarrow> world \<Rightarrow> bool" where
  "only_at ps w w' \<longleftrightarrow>
     (\<forall>p. p \<notin> set ps \<longrightarrow> files w' p = files w p) \<and>
     module_file w' = module_file w \<and> tmp_supply w' = tmp_supply w \<and>
     clone_ok w' = clone_ok w \<and> http_response w' = http_response w"

section \<open>What a call leaves alone\<close>

text \<open>Two worlds that differ in their files only.\<close>

definition same_env :: "world \<Rightarrow> world \<Rightarrow> bool" where
  "same_env w w' \<longleftrightarrow> w' = w\<lparr>files := files w'\<rparr>"

section \<open>Facts about the library model\<close>

lemma resolve_mono: "resolve n fs p = Some q \<Longrightarrow> resolve (n + k) fs p = Some q"
  by (induction n fs p rule: resolve.induct) (auto split: option.splits node.splits)

lemma resolve_le: "resolve n fs p = Some q \<Longrightarrow> n \<le> m \<Longrightarrow> resolve m fs p = Some q"
  using resolve_mono [of n fs p q "m - n"] by simp

lemma resolve_end:
  "resolve n fs p = Some q \<Longrightarrow> fs q = Some Dir \<or> (\<exists>c. fs q = Some (File c))"
  by (induction n fs p rule: resolve.induct) (auto split: option.splits node.splits)

lemma resolve_remove:
  "resolve n fs p = Some q \<Longrightarrow> resolve m fs d = Some q' \<Longrightarrow> n \<le> m \<Longrightarrow> q \<noteq> q' \<Longrightarrow>
     resolve n (fs(d := None)) p = Some q"
proof (induction n fs p rule: resolve.induct)
  case (1 fs p)
  then show ?case by simp
next
  case (2 n fs p)
  have "p \<noteq> d"
  proof
    assume "p = d"
    with "2.prems"(1,3) have "resolve m fs d = Some q"
      using resolve_le by blast
    with "2.prems"(2,4) show False by simp
  qed
  with 2 show ?case
    by (auto split: option.splits node.splits)
qed

lemma stat_None: "fs p = None \<Longrightarrow> stat fs p = None"
  by (simp add: stat_def)

lemma stat_File: "fs p = Some (File c) \<Longrightarrow> stat fs p = Some p"
  by (simp add: stat_def)

lemma stat_Dir: "fs p = Some Dir \<Longrightarrow> stat fs p = Some p"
  by (simp add: stat_def)

lemma exists_not_symlink: "exists w p \<Longrightarrow> \<not> is_symlink w p \<Longrightarrow> files w p \<noteq> None"
  by (auto simp: exists_def stat_def split: option.splits)

lemma not_exists_absent: "files w p = None \<Longrightarrow> \<not> exists w p"
  by (simp add: exists_def stat_None)

lemma is_symlink_iff: "is_symlink w p \<longleftrightarrow> (\<exists>t. files w p = Some (Symlink t))"
  by (auto simp: is_symlink_def split: option.splits node.splits)

lemma symlink_to_occupied:
  "files w p \<noteq> None \<Longrightarrow>
     \<exists>e. symlink_to p t w = (Inl e, w) \<and> e \<in> {FileExistsError, FileNotFoundError, NotADirectoryError}"
  by (auto simp: symlink_to_def split: option.splits node.splits)

lemma symlink_to_free:
  "files w p = None \<Longrightarrow> files w (parent p) = Some Dir \<Longrightarrow>
     symlink_to p t w = (Inr (), w\<lparr>files := (files w)(p \<mapsto> Symlink t)\<rparr>)"
  by (simp add: symlink_to_def)

lemma SymLink_link_free:
  "files w p = None \<Longrightarrow> files w (parent p) = Some Dir \<Longrightarrow>
     SymLink_link p t w = (Inr SUCCESS, w\<lparr>files := (files w)(p \<mapsto> Symlink t)\<rparr>)"
  by (simp add: SymLink_link_def and_then_def symlink_to_free)

lemma is_file_iff:
  "is_file w p \<longleftrightarrow> (\<exists>q c. stat (files w) p = Some q \<and> files w q = Some (File c))"
  by (auto simp: is_file_def split: option.splits node.splits)

lemma read_text_iff:
  "read_text w p = Some c \<longleftrightarrow> (\<exists>q. stat (files w) p = Some q \<and> files w q = Some (File c))"
  by (auto simp: read_text_def split: option.splits node.splits)

lemma copy_to_absent:
  assumes "stat (files w) src = Some q" "files w q = Some (File c)"
    and "files w dst = None" "files w (parent dst) = Some Dir"
  shows "copy src dst w = (Inr (), w\<lparr>files := (files w)(dst \<mapsto> File c)\<rparr>)"
proof -
  have "stat (files w) dst = None"
    using assms(3) by (rule stat_None)
  then have "\<not> is_dir w dst" "\<not> samefile w src dst"
    by (simp_all add: is_dir_def samefile_def assms(1))
  moreover have "write_text dst c w = (Inr (), w\<lparr>files := (files w)(dst \<mapsto> File c)\<rparr>)"
    using assms(3,4) by (simp add: write_text_def)
  ultimately show ?thesis
    using assms(1,2) by (simp add: copy_def)
qed

lemma copy_over_file:
  assumes "stat (files w) src = Some q" "files w q = Some (File c)"
    and "files w dst = Some (File c0)" "q \<noteq> dst"
  shows "copy src dst w = (Inr (), w\<lparr>files := (files w)(dst \<mapsto> File c)\<rparr>)"
proof -
  have "stat (files w) dst = Some dst"
    using assms(3) by (rule stat_File)
  then have "\<not> is_dir w dst" "\<not> samefile w src dst"
    using assms by (simp_all add: is_dir_def samefile_def)
  moreover have "write_text dst c w = (Inr (), w\<lparr>files := (files w)(dst \<mapsto> File c)\<rparr>)"
    using assms(3) by (simp add: write_text_def)
  ultimately show ?thesis
    using assms(1,2) by (simp add: copy_def)
qed

lemma stat_after_unlink:
  assumes "stat (files w) src = Some q" "exists w dst" "\<not> samefile w src dst"
  shows "stat ((files w)(dst := None)) src = Some q"
proof -
  from assms(2) obtain q' where q': "stat (files w) dst = Some q'"
    by (auto simp: exists_def)
  with assms(1,3) have "q \<noteq> q'"
    by (simp add: samefile_def)
  with assms(1) q' show ?thesis
    unfolding stat_def by (intro resolve_remove [where m = "Suc SYMLOOP_MAX"]) simp_all
qed

subsection \<open>Calls that change the files only\<close>

lemma same_env_refl [simp]: "same_env w w"
  by (simp add: same_env_def)

lemma same_env_upd [simp]: "same_env w (w\<lparr>files := fs\<rparr>)"
  by (simp add: same_env_def)

lemma same_env_trans: "same_env w w' \<Longrightarrow> same_env w' w'' \<Longrightarrow> same_env w w''"
  unfolding same_env_def by (cases w, cases w', cases w'') simp

lemma same_env_fields:
  assumes "same_env w w'"
  shows "module_file w' = module_file w" "programs w' = programs w" "stdout w' = stdout w"
    "tmp_supply w' = tmp_supply w" "tmp_counter w' = tmp_counter w" "clone_ok w' = clone_ok w"
    "http_response w' = http_response w" "clones w' = clones w" "http_gets w' = http_gets w"
  using assms unfolding same_env_def by (cases w, cases w', simp)+

lemma unlink_env: "same_env w (snd (unlink p w))"
  by (simp add: unlink_def split: option.splits node.splits)

lemma symlink_to_env: "same_env w (snd (symlink_to p t w))"
  by (simp add: symlink_to_def split: option.splits node.splits)

lemma write_text_env: "same_env w (snd (write_text p c w))"
  by (simp add: write_text_def split: sum.splits)

lemma copy_env: "same_env w (snd (copy a b w))"
  by (simp add: copy_def Let_def write_text_env split: option.splits node.splits)

lemma and_then_env:
  assumes "\<And>w. same_env w (snd (m w))" "\<And>a w. same_env w (snd (f a w))"
  shows "same_env w (snd (and_then m f w))"
proof (cases "m w")
  case (Pair r w1)
  with assms(1) [of w] have 1: "same_env w w1" by simp
  show ?thesis
  proof (cases r)
    case (Inl e)
    with Pair 1 show ?thesis by (simp add: and_then_def)
  next
    case (Inr a)
    with Pair have "and_then m f w = f a w1" by (simp add: and_then_def)
    with 1 assms(2) [of w1 a] show ?thesis by (auto intro: same_env_trans)
  qed
qed

lemma CopyFile_run_env: "same_env w (snd (CopyFile_run options s d w))"
  by (simp add: CopyFile_run_def Let_def CopyFile_copy_def and_then_env unlink_env copy_env)

lemma SymLink_run_env: "same_env w (snd (SymLink_run options f w))"
  by (simp add: SymLink_run_def Let_def SymLink_link_def and_then_env unlink_env symlink_to_env)

lemma os_mkdir_env: "same_env w (snd (os_mkdir p w))"
  by (simp add: os_mkdir_def split: option.splits node.splits)

lemma mkdir_env: "same_env w (snd (mkdir e p w))"
  using os_mkdir_env [of w p] by (auto simp: mkdir_def split: prod.splits sum.splits)


declare mkdir_parents.simps [simp del]

lemma mkdir_parents_env: "same_env w (snd (mkdir_parents e p w))"
proof (induction e p w rule: mkdir_parents.induct)
  case (1 exist_ok p w)
  show ?case
  proof (cases "os_mkdir p w")
    case (Pair r w')
    show ?thesis
    proof (cases r)
      case (Inr u)
      with Pair os_mkdir_env [of w p] show ?thesis
        by (subst mkdir_parents.simps) simp
    next
      case (Inl err)
      show ?thesis
      proof (cases "err = FileNotFoundError \<and> parent p \<noteq> p")
        case True
        with Pair Inl have ih: "same_env w (snd (mkdir_parents True (parent p) w))"
          using "1.IH" by auto
        show ?thesis
        proof (cases "mkdir_parents True (parent p) w")
          case (Pair r1 w1)
          with ih have "same_env w w1" by simp
          with mkdir_env [of w1 exist_ok p] have "same_env w (snd (mkdir exist_ok p w1))"
            by (blast intro: same_env_trans)
          with Pair \<open>same_env w w1\<close> \<open>os_mkdir p w = (r, w')\<close> Inl True show ?thesis
            by (subst mkdir_parents.simps) (auto split: sum.splits)
        qed
      next
        case False
        with Pair Inl show ?thesis
          by (subst mkdir_parents.simps) auto
      qed
    qed
  qed
qed

lemma f_write_env: "same_env w (snd (f_write f c w))"
  by (simp add: f_write_def)

lemma program_exist_fields:
  "files (snd (program_exist b p w)) = files w"
  "module_file (snd (program_exist b p w)) = module_file w"
  "programs (snd (program_exist b p w)) = programs w"
  "tmp_supply (snd (program_exist b p w)) = tmp_supply w"
  "tmp_counter (snd (program_exist b p w)) = tmp_counter w"
  "clone_ok (snd (program_exist b p w)) = clone_ok w"
  "http_response (snd (program_exist b p w)) = http_response w"
  "clones (snd (program_exist b p w)) = clones w"
  "http_gets (snd (program_exist b p w)) = http_gets w"
  by (simp_all add: program_exist_def)

lemma with_tmp_fields:
  assumes "\<And>f w. same_env w (snd (body f w))"
  shows "tmp_counter (snd (with_NamedTemporaryFile body w)) = Suc (tmp_counter w)"
    and "module_file (snd (with_NamedTemporaryFile body w)) = module_file w"
    and "programs (snd (with_NamedTemporaryFile body w)) = programs w"
    and "stdout (snd (with_NamedTemporaryFile body w)) = stdout w"
    and "tmp_supply (snd (with_NamedTemporaryFile body w)) = tmp_supply w"
    and "clone_ok (snd (with_NamedTemporaryFile body w)) = clone_ok w"
    and "http_response (snd (with_NamedTemporaryFile body w)) = http_response w"
    and "clones (snd (with_NamedTemporaryFile body w)) = clones w"
    and "http_gets (snd (with_NamedTemporaryFile body w)) = http_gets w"
proof -
  let ?t = "tmp_supply w (tmp_counter w)"
  let ?w1 = "w\<lparr>tmp_counter := Suc (tmp_counter w), files := (files w)(?t \<mapsto> File [])\<rparr>"
  obtain r w2 where b: "body ?t ?w1 = (r, w2)"
    by (cases "body ?t ?w1")
  with assms [of ?w1 ?t] have "same_env ?w1 w2"
    by simp
  note e = same_env_fields [OF this]
  have run: "snd (with_NamedTemporaryFile body w) =
      (if files w ?t \<noteq> None then w\<lparr>tmp_counter := Suc (tmp_counter w)\<rparr>
       else w2\<lparr>files := (files w2)(?t := None)\<rparr>)"
    using b by (simp add: with_NamedTemporaryFile_def NamedTemporaryFile_def Let_def)
  show "tmp_counter (snd (with_NamedTemporaryFile body w)) = Suc (tmp_counter w)"
    and "module_file (snd (with_NamedTemporaryFile body w)) = module_file w"
    and "programs (snd (with_NamedTemporaryFile body w)) = programs w"
    and "stdout (snd (with_NamedTemporaryFile body w)) = stdout w"
    and "tmp_supply (snd (with_NamedTemporaryFile body w)) = tmp_supply w"
    and "clone_ok (snd (with_NamedTemporaryFile body w)) = clone_ok w"
    and "http_response (snd (with_NamedTemporaryFile body w)) = http_response w"
    and "clones (snd (with_NamedTemporaryFile body w)) = clones w"
    and "http_gets (snd (with_NamedTemporaryFile body w)) = http_gets w"
    using e by (simp_all add: run)
qed



lemma Vim_vimrc_fields:
  "http_gets (snd (Vim_vimrc options w)) = http_gets w"
  unfolding Vim_vimrc_def
  by (rule with_tmp_fields; auto simp: Let_def intro!: and_then_env f_write_env CopyFile_run_env)+

lemma program_exist_installed: "programs w p \<Longrightarrow> snd (program_exist b p w) = w"
  by (simp add: program_exist_def)


section \<open>Placement by symbolic link\<close>

text \<open>
  Claim C1, as the code has it. With the resource there, \<^verbatim>\<open>SymLink.run\<close> on the destination
  \<open>dest_dir / filename\<close>:
  \<^item> returns \<open>SKIP\<close> and changes nothing when the destination exists and \<open>overwrite\<close> is off;
  \<^item> when the destination exists, \<open>overwrite\<close> is on and the destination is a symbolic
    link (in an existing directory), unlinks it, creates the link to the resource and
    returns \<open>SUCCESS\<close>;
  \<^item> when nothing at all is at the destination path and its directory exists, creates
    the link to the resource and returns \<open>SUCCESS\<close>.
  The last case needs more than \<^verbatim>\<open>dst.exists()\<close> being false: see the counterexample.
\<close>

theorem SymLink_run_cases:
  "exists w (SymLink_src w filename) \<Longrightarrow>
   (exists w (SymLink_dst options filename) \<and> \<not> overwrite options \<longrightarrow>
      SymLink_run options filename w = (Inr SKIP, w)) \<and>
   (exists w (SymLink_dst options filename) \<and> overwrite options \<and>
    is_symlink w (SymLink_dst options filename) \<and>
    files w (parent (SymLink_dst options filename)) = Some Dir \<longrightarrow>
      unlink (SymLink_dst options filename) w =
        (Inr (), w\<lparr>files := (files w)(SymLink_dst options filename := None)\<rparr>) \<and>
      SymLink_run options filename w =
        (Inr SUCCESS, w\<lparr>files := (files w)(SymLink_dst options filename \<mapsto>
           Symlink (SymLink_src w filename))\<rparr>)) \<and>
   (files w (SymLink_dst options filename) = None \<and>
    files w (parent (SymLink_dst options filename)) = Some Dir \<longrightarrow>
      SymLink_run options filename w =
        (Inr SUCCESS, w\<lparr>files := (files w)(SymLink_dst options filename \<mapsto>
           Symlink (SymLink_src w filename))\<rparr>))"
proof (intro conjI impI)
  let ?src = "SymLink_src w filename"
  let ?dst = "SymLink_dst options filename"
  assume src: "exists w ?src"
  {
    assume "exists w ?dst \<and> \<not> overwrite options"
    with src show "SymLink_run options filename w = (Inr SKIP, w)"
      by (simp add: SymLink_run_def)
  }
  {
    assume a: "exists w ?dst \<and> overwrite options \<and> is_symlink w ?dst \<and>
      files w (parent ?dst) = Some Dir"
    then obtain t where t: "files w ?dst = Some (Symlink t)"
      by (auto simp: is_symlink_iff)
    with a have ne: "parent ?dst \<noteq> ?dst"
      by auto
    from t show u: "unlink ?dst w = (Inr (), w\<lparr>files := (files w)(?dst := None)\<rparr>)"
      by (simp add: unlink_def)
    have "SymLink_link ?dst ?src (w\<lparr>files := (files w)(?dst := None)\<rparr>) =
        (Inr SUCCESS, w\<lparr>files := (files w)(?dst \<mapsto> Symlink ?src)\<rparr>)"
      using a ne by (subst SymLink_link_free) simp_all
    with src a u show "SymLink_run options filename w =
        (Inr SUCCESS, w\<lparr>files := (files w)(?dst \<mapsto> Symlink ?src)\<rparr>)"
      by (simp add: SymLink_run_def and_then_def)
  }
  {
    assume a: "files w ?dst = None \<and> files w (parent ?dst) = Some Dir"
    then have "\<not> exists w ?dst"
      by (simp add: not_exists_absent)
    with src a show "SymLink_run options filename w =
        (Inr SUCCESS, w\<lparr>files := (files w)(?dst \<mapsto> Symlink ?src)\<rparr>)"
      by (simp add: SymLink_run_def SymLink_link_free)
  }
qed


text \<open>The three cases at \<^verbatim>\<open>/home/u/.tmux.conf\<close>: a regular file kept, a link replaced, a fresh link.\<close>

theorem SymLink_run_cases_witness:
  "SymLink_run keep ''.tmux.conf'' (home_with ''.tmux.conf'' (File ''old'')) =
     (Inr SKIP, home_with ''.tmux.conf'' (File ''old'')) \<and>
   SymLink_run replace ''.tmux.conf''
       (home_with ''.tmux.conf'' (Symlink (PosixPath True [''home'', ''u''])))  =
     (Inr SUCCESS, (home_with ''.tmux.conf'' (Symlink (PosixPath True [''home'', ''u''])))
        \<lparr>files := (files (home_with ''.tmux.conf'' (Symlink (PosixPath True [''home'', ''u'']))))
           (SymLink_dst replace ''.tmux.conf'' \<mapsto>
            Symlink (SymLink_src (home_with ''.tmux.conf'' (Symlink (PosixPath True [''home'', ''u'']))) ''.tmux.conf''))\<rparr>) \<and>
   SymLink_run keep ''.tmux.conf'' fresh_home =
     (Inr SUCCESS, fresh_home\<lparr>files := (files fresh_home)
        (SymLink_dst keep ''.tmux.conf'' \<mapsto> Symlink (SymLink_src fresh_home ''.tmux.conf''))\<rparr>)"
proof -
  let ?wa = "home_with ''.tmux.conf'' (File ''old'')"
  let ?wb = "home_with ''.tmux.conf'' (Symlink (PosixPath True [''home'', ''u'']))"
  have a: "exists ?wa (SymLink_src ?wa ''.tmux.conf'')"
    "exists ?wa (SymLink_dst keep ''.tmux.conf'') \<and> \<not> overwrite keep"
    by code_simp+
  have b: "exists ?wb (SymLink_src ?wb ''.tmux.conf'')"
    "exists ?wb (SymLink_dst replace ''.tmux.conf'') \<and> overwrite replace \<and>
     is_symlink ?wb (SymLink_dst replace ''.tmux.conf'') \<and>
     files ?wb (parent (SymLink_dst replace ''.tmux.conf'')) = Some Dir"
    by code_simp+
  have c: "exists fresh_home (SymLink_src fresh_home ''.tmux.conf'')"
    "files fresh_home (SymLink_dst keep ''.tmux.conf'') = None \<and>
     files fresh_home (parent (SymLink_dst keep ''.tmux.conf'')) = Some Dir"
    by code_simp+
  show ?thesis
    using SymLink_run_cases [OF a(1), of keep] SymLink_run_cases [OF b(1), of replace]
      SymLink_run_cases [OF c(1), of keep] a(2) b(2) c(2)
    by blast
qed

text \<open>
  The claim as stated fails where \<^verbatim>\<open>dst.exists()\<close> is false and the link cannot be made:
  a dangling symbolic link at the destination (\<^verbatim>\<open>FileExistsError\<close>, with \<open>overwrite\<close> on or
  off), or no destination directory (\<^verbatim>\<open>FileNotFoundError\<close>).
\<close>

theorem SymLink_run_counterexample:
  "exists (home_with ''.tmux.conf'' (Symlink (PosixPath True [''gone''])))
     (SymLink_src (home_with ''.tmux.conf'' (Symlink (PosixPath True [''gone'']))) ''.tmux.conf'') \<and>
   \<not> exists (home_with ''.tmux.conf'' (Symlink (PosixPath True [''gone''])))
     (SymLink_dst keep ''.tmux.conf'') \<and>
   fst (SymLink_run keep ''.tmux.conf''
         (home_with ''.tmux.conf'' (Symlink (PosixPath True [''gone''])))) = Inl FileExistsError \<and>
   fst (SymLink_run replace ''.tmux.conf''
         (home_with ''.tmux.conf'' (Symlink (PosixPath True [''gone''])))) = Inl FileExistsError \<and>
   exists no_home (SymLink_src no_home ''.tmux.conf'') \<and>
   \<not> exists no_home (SymLink_dst keep ''.tmux.conf'') \<and>
   fst (SymLink_run keep ''.tmux.conf'' no_home) = Inl FileNotFoundError"
  by code_simp

text \<open>
  Claim C9. When \<^verbatim>\<open>SymLink.run\<close> finds the resource, \<open>overwrite\<close> is on and the destination
  exists but is not a symbolic link, the destination is not removed and the link is
  attempted all the same: \<^verbatim>\<open>symlink_to\<close> raises, \<open>run\<close> ends with that exception and no
  outcome, and nothing has changed. The exception is \<^verbatim>\<open>FileExistsError\<close> in every file system
  where the directory of the destination is a directory.
\<close>

theorem SymLink_overwrite_non_symlink:
  "exists w (SymLink_src w filename) \<Longrightarrow>
   exists w (SymLink_dst options filename) \<Longrightarrow>
   \<not> is_symlink w (SymLink_dst options filename) \<Longrightarrow>
   overwrite options \<Longrightarrow>
   (\<exists>e. symlink_to (SymLink_dst options filename) (SymLink_src w filename) w = (Inl e, w)
       \<and> SymLink_run options filename w = (Inl e, w)
       \<and> e \<in> {FileExistsError, FileNotFoundError, NotADirectoryError}
       \<and> (files w (parent (SymLink_dst options filename)) = Some Dir
              \<longrightarrow> e = FileExistsError))"
proof -
  let ?src = "SymLink_src w filename"
  let ?dst = "SymLink_dst options filename"
  assume src: "exists w ?src" and dst: "exists w ?dst" and nl: "\<not> is_symlink w ?dst"
    and ow: "overwrite options"
  from dst nl have occ: "files w ?dst \<noteq> None"
    by (rule exists_not_symlink)
  then obtain e where e: "symlink_to ?dst ?src w = (Inl e, w)"
    and cls: "e \<in> {FileExistsError, FileNotFoundError, NotADirectoryError}"
    using symlink_to_occupied by blast
  have run: "SymLink_run options filename w = (Inl e, w)"
    using src dst nl ow e by (simp add: SymLink_run_def SymLink_link_def and_then_def)
  have "files w (parent ?dst) = Some Dir \<Longrightarrow> e = FileExistsError"
    using occ e by (auto simp: symlink_to_def)
  with e cls run show ?thesis by blast
qed

text \<open>A regular file and a directory at \<^verbatim>\<open>/home/u/.gdbinit\<close>, \<open>overwrite\<close> on.\<close>

theorem SymLink_overwrite_non_symlink_witness:
  "SymLink_run replace ''.gdbinit'' (home_with ''.gdbinit'' (File ''old'')) =
     (Inl FileExistsError, home_with ''.gdbinit'' (File ''old'')) \<and>
   SymLink_run replace ''.gdbinit'' (home_with ''.gdbinit'' Dir) =
     (Inl FileExistsError, home_with ''.gdbinit'' Dir)"
proof -
  let ?wf = "home_with ''.gdbinit'' (File ''old'')"
  let ?wd = "home_with ''.gdbinit'' Dir"
  have f: "exists ?wf (SymLink_src ?wf ''.gdbinit'')"
    "exists ?wf (SymLink_dst replace ''.gdbinit'')"
    "\<not> is_symlink ?wf (SymLink_dst replace ''.gdbinit'')"
    "files ?wf (parent (SymLink_dst replace ''.gdbinit'')) = Some Dir"
    by code_simp+
  have d: "exists ?wd (SymLink_src ?wd ''.gdbinit'')"
    "exists ?wd (SymLink_dst replace ''.gdbinit'')"
    "\<not> is_symlink ?wd (SymLink_dst replace ''.gdbinit'')"
    "files ?wd (parent (SymLink_dst replace ''.gdbinit'')) = Some Dir"
    by code_simp+
  have ow: "overwrite replace"
    by code_simp
  show ?thesis
    using SymLink_overwrite_non_symlink [OF f(1-3) ow] f(4)
      SymLink_overwrite_non_symlink [OF d(1-3) ow] d(4)
    by auto
qed

section \<open>Placement by copy\<close>

text \<open>
  Claim C2, as the code has it. With a regular file as the source and an existing
  destination, \<^verbatim>\<open>CopyFile.run\<close>:
  \<^item> returns \<open>SKIP\<close> and changes nothing when \<open>overwrite\<close> is off;
  \<^item> with \<open>overwrite\<close> on and a symbolic link at the destination, unlinks the link, writes
    the content of the source to the destination and returns \<open>SUCCESS\<close>;
  \<^item> with \<open>overwrite\<close> on and a regular file at the destination, writes the content of the
    source over it and returns \<open>SUCCESS\<close>;
  \<^item> with \<open>overwrite\<close> on and neither of them (a directory), returns \<open>SKIP\<close> and changes
    nothing.
  The two copying cases hold when source and destination are not the same file (and, for
  the link, when its directory is a directory, as it is in every real file system).
\<close>

theorem CopyFile_run_cases:
  "is_file w src_path \<Longrightarrow> exists w (CopyFile_dst options dst_path) \<Longrightarrow>
   (\<not> overwrite options \<longrightarrow> CopyFile_run options src_path dst_path w = (Inr SKIP, w)) \<and>
   (overwrite options \<and> is_symlink w (CopyFile_dst options dst_path) \<and>
    \<not> samefile w src_path (CopyFile_dst options dst_path) \<and>
    files w (parent (CopyFile_dst options dst_path)) = Some Dir \<longrightarrow>
      unlink (CopyFile_dst options dst_path) w =
        (Inr (), w\<lparr>files := (files w)(CopyFile_dst options dst_path := None)\<rparr>) \<and>
      (\<exists>c. read_text w src_path = Some c \<and>
        CopyFile_run options src_path dst_path w =
          (Inr SUCCESS, w\<lparr>files := (files w)(CopyFile_dst options dst_path \<mapsto> File c)\<rparr>))) \<and>
   (overwrite options \<and> \<not> is_symlink w (CopyFile_dst options dst_path) \<and>
    is_file w (CopyFile_dst options dst_path) \<and>
    \<not> samefile w src_path (CopyFile_dst options dst_path) \<longrightarrow>
      (\<exists>c. read_text w src_path = Some c \<and>
        CopyFile_run options src_path dst_path w =
          (Inr SUCCESS, w\<lparr>files := (files w)(CopyFile_dst options dst_path \<mapsto> File c)\<rparr>))) \<and>
   (overwrite options \<and> \<not> is_symlink w (CopyFile_dst options dst_path) \<and>
    \<not> is_file w (CopyFile_dst options dst_path) \<longrightarrow>
      CopyFile_run options src_path dst_path w = (Inr SKIP, w))"
proof (intro conjI impI)
  let ?dst = "CopyFile_dst options dst_path"
  assume "is_file w src_path" and dst: "exists w ?dst"
  then obtain q c where q: "stat (files w) src_path = Some q" and c: "files w q = Some (File c)"
    by (auto simp: is_file_iff)
  then have src: "exists w src_path" and rd: "read_text w src_path = Some c"
    by (auto simp: exists_def read_text_iff)
  {
    assume "\<not> overwrite options"
    with src dst show "CopyFile_run options src_path dst_path w = (Inr SKIP, w)"
      by (simp add: CopyFile_run_def)
  }
  {
    assume a: "overwrite options \<and> \<not> is_symlink w ?dst \<and> \<not> is_file w ?dst"
    with src dst show "CopyFile_run options src_path dst_path w = (Inr SKIP, w)"
      by (simp add: CopyFile_run_def)
  }
  {
    assume a: "overwrite options \<and> \<not> is_symlink w ?dst \<and> is_file w ?dst \<and>
      \<not> samefile w src_path ?dst"
    then have "files w ?dst \<noteq> None"
      using dst by (simp add: exists_not_symlink)
    with a obtain c0 where c0: "files w ?dst = Some (File c0)"
      by (auto simp: is_file_def is_symlink_def stat_def split: option.splits node.splits)
    then have "stat (files w) ?dst = Some ?dst"
      by (rule stat_File)
    with a q have "q \<noteq> ?dst"
      by (auto simp: samefile_def)
    with q c c0 have "copy src_path ?dst w = (Inr (), w\<lparr>files := (files w)(?dst \<mapsto> File c)\<rparr>)"
      by (rule copy_over_file)
    with src dst a rd show "\<exists>c. read_text w src_path = Some c \<and>
        CopyFile_run options src_path dst_path w =
          (Inr SUCCESS, w\<lparr>files := (files w)(?dst \<mapsto> File c)\<rparr>)"
      by (simp add: CopyFile_run_def CopyFile_copy_def and_then_def)
  }
  {
    assume a: "overwrite options \<and> is_symlink w ?dst \<and> \<not> samefile w src_path ?dst \<and>
      files w (parent ?dst) = Some Dir"
    then obtain t where t: "files w ?dst = Some (Symlink t)"
      by (auto simp: is_symlink_iff)
    let ?w' = "w\<lparr>files := (files w)(?dst := None)\<rparr>"
    from t show u: "unlink ?dst w = (Inr (), ?w')"
      by (simp add: unlink_def)
    from a t have ne: "parent ?dst \<noteq> ?dst"
      by auto
    from c t have "q \<noteq> ?dst"
      by auto
    have "stat (files ?w') src_path = Some q"
      using stat_after_unlink [OF q dst] a by simp
    moreover have "files ?w' q = Some (File c)"
      using c \<open>q \<noteq> ?dst\<close> by simp
    moreover have "files ?w' ?dst = None" "files ?w' (parent ?dst) = Some Dir"
      using a ne by simp_all
    ultimately have "copy src_path ?dst ?w' = (Inr (), ?w'\<lparr>files := (files ?w')(?dst \<mapsto> File c)\<rparr>)"
      by (rule copy_to_absent)
    with src dst a u rd show "\<exists>c. read_text w src_path = Some c \<and>
        CopyFile_run options src_path dst_path w =
          (Inr SUCCESS, w\<lparr>files := (files w)(?dst \<mapsto> File c)\<rparr>)"
      by (simp add: CopyFile_run_def CopyFile_copy_def and_then_def)
  }
qed

text \<open>
  The four cases at \<^verbatim>\<open>/home/u/.gitconfig\<close>: kept, a link replaced by a copy, a regular file
  overwritten, a directory skipped.
\<close>

theorem CopyFile_run_cases_witness:
  "CopyFile_run keep res_gitconfig (Path ''.gitconfig'') (home_with ''.gitconfig'' (File ''old'')) =
     (Inr SKIP, home_with ''.gitconfig'' (File ''old'')) \<and>
   CopyFile_run replace res_gitconfig (Path ''.gitconfig'') (home_with ''.gitconfig'' (Symlink home)) =
     (Inr SUCCESS, (home_with ''.gitconfig'' (Symlink home))
        \<lparr>files := (files (home_with ''.gitconfig'' (Symlink home)))
           (CopyFile_dst replace (Path ''.gitconfig'') \<mapsto> File ''[core]'')\<rparr>) \<and>
   CopyFile_run replace res_gitconfig (Path ''.gitconfig'') (home_with ''.gitconfig'' (File ''old'')) =
     (Inr SUCCESS, (home_with ''.gitconfig'' (File ''old''))
        \<lparr>files := (files (home_with ''.gitconfig'' (File ''old'')))
           (CopyFile_dst replace (Path ''.gitconfig'') \<mapsto> File ''[core]'')\<rparr>) \<and>
   CopyFile_run replace res_gitconfig (Path ''.gitconfig'') (home_with ''.gitconfig'' Dir) =
     (Inr SKIP, home_with ''.gitconfig'' Dir)"
proof -
  let ?wf = "home_with ''.gitconfig'' (File ''old'')"
  let ?wl = "home_with ''.gitconfig'' (Symlink home)"
  let ?wd = "home_with ''.gitconfig'' Dir"
  let ?dst = "CopyFile_dst replace (Path ''.gitconfig'')"
  have f: "is_file ?wf res_gitconfig" "exists ?wf (CopyFile_dst keep (Path ''.gitconfig''))"
    "\<not> overwrite keep" "exists ?wf ?dst"
    "overwrite replace \<and> \<not> is_symlink ?wf ?dst \<and> is_file ?wf ?dst \<and> \<not> samefile ?wf res_gitconfig ?dst"
    "read_text ?wf res_gitconfig = Some ''[core]''"
    by code_simp+
  have l: "is_file ?wl res_gitconfig" "exists ?wl ?dst"
    "overwrite replace \<and> is_symlink ?wl ?dst \<and> \<not> samefile ?wl res_gitconfig ?dst \<and>
     files ?wl (parent ?dst) = Some Dir"
    "read_text ?wl res_gitconfig = Some ''[core]''"
    by code_simp+
  have d: "is_file ?wd res_gitconfig" "exists ?wd ?dst"
    "overwrite replace \<and> \<not> is_symlink ?wd ?dst \<and> \<not> is_file ?wd ?dst"
    by code_simp+
  have 1: "CopyFile_run keep res_gitconfig (Path ''.gitconfig'') ?wf = (Inr SKIP, ?wf)"
    using CopyFile_run_cases [OF f(1,2)] f(3) by blast
  have 2: "CopyFile_run replace res_gitconfig (Path ''.gitconfig'') ?wl =
      (Inr SUCCESS, ?wl\<lparr>files := (files ?wl)(?dst \<mapsto> File ''[core]'')\<rparr>)"
    using CopyFile_run_cases [OF l(1,2)] l(3,4) by auto
  have 3: "CopyFile_run replace res_gitconfig (Path ''.gitconfig'') ?wf =
      (Inr SUCCESS, ?wf\<lparr>files := (files ?wf)(?dst \<mapsto> File ''[core]'')\<rparr>)"
    using CopyFile_run_cases [OF f(1,4)] f(5,6) by auto
  have 4: "CopyFile_run replace res_gitconfig (Path ''.gitconfig'') ?wd = (Inr SKIP, ?wd)"
    using CopyFile_run_cases [OF d(1,2)] d(3) by blast
  from 1 2 3 4 show ?thesis
    by blast
qed

text \<open>
  The claim as stated fails when source and destination are one file: \<^verbatim>\<open>shutil.copy\<close> raises
  \<^verbatim>\<open>SameFileError\<close> over the regular file, and after the unlink of a link that the source was
  read through there is no source left (\<^verbatim>\<open>FileNotFoundError\<close>).
\<close>

theorem CopyFile_run_counterexample:
  "is_file (home_with ''.gitconfig'' (File ''old'')) (PosixPath True [''home'', ''u'', ''.gitconfig'']) \<and>
   exists (home_with ''.gitconfig'' (File ''old'')) (CopyFile_dst replace (Path ''.gitconfig'')) \<and>
   overwrite replace \<and>
   \<not> is_symlink (home_with ''.gitconfig'' (File ''old'')) (CopyFile_dst replace (Path ''.gitconfig'')) \<and>
   is_file (home_with ''.gitconfig'' (File ''old'')) (CopyFile_dst replace (Path ''.gitconfig'')) \<and>
   fst (CopyFile_run replace (PosixPath True [''home'', ''u'', ''.gitconfig'']) (Path ''.gitconfig'')
          (home_with ''.gitconfig'' (File ''old''))) = Inl SameFileError \<and>
   is_file (home_with ''.gitconfig'' (Symlink res_gitconfig)) (PosixPath True [''home'', ''u'', ''.gitconfig'']) \<and>
   exists (home_with ''.gitconfig'' (Symlink res_gitconfig)) (CopyFile_dst replace (Path ''.gitconfig'')) \<and>
   is_symlink (home_with ''.gitconfig'' (Symlink res_gitconfig)) (CopyFile_dst replace (Path ''.gitconfig'')) \<and>
   fst (CopyFile_run replace (PosixPath True [''home'', ''u'', ''.gitconfig'']) (Path ''.gitconfig'')
          (home_with ''.gitconfig'' (Symlink res_gitconfig))) = Inl FileNotFoundError"
  by code_simp

section \<open>The destination of the copying installers\<close>

text \<open>
  \<^verbatim>\<open>Git.run\<close>, \<^verbatim>\<open>Zsh.run\<close> and \<^verbatim>\<open>Vim.run\<close> hand \<open>dest_dir / target\<close> to \<^verbatim>\<open>CopyFile\<close>, which
  joins \<open>dest_dir\<close> in front once more. With an absolute \<open>dest_dir\<close> the second join changes
  nothing.
\<close>

lemma CopyFile_dst_absolute:
  "is_absolute (dest_dir options) \<Longrightarrow>
     CopyFile_dst options (joinpath (dest_dir options) (Path target)) =
       joinpath (dest_dir options) (Path target)"
  by (simp add: CopyFile_dst_def joinpath_def)


text \<open>
  Claim C10 at the relative destination directory \<^verbatim>\<open>out\<close>: the copying installers aim at
  \<^verbatim>\<open>out/out/target\<close>, the directory joined in twice, where \<^verbatim>\<open>SymLink\<close> aims at
  \<^verbatim>\<open>out/target\<close>. In the empty directory \<^verbatim>\<open>out\<close> the tmux installer succeeds and the
  Git installer fails, there being no directory \<^verbatim>\<open>out/out\<close>.
\<close>

theorem CopyFile_dst_relative_dest_dir:
  "CopyFile_dst out_keep (Git_dst_path out_keep) = Path ''out/out/.gitconfig'' \<and>
   CopyFile_dst out_keep (Zsh_dst_path out_keep ''.zshrc'') = Path ''out/out/.zshrc'' \<and>
   CopyFile_dst out_keep (Zsh_dst_path out_keep ''.zshenv'') = Path ''out/out/.zshenv'' \<and>
   CopyFile_dst out_keep (Vim_dst_path out_keep) = Path ''out/out/.vimrc'' \<and>
   joinpath (dest_dir out_keep) (Path ''.gitconfig'') = Path ''out/.gitconfig'' \<and>
   SymLink_dst out_keep ''.tmux.conf'' = Path ''out/.tmux.conf'' \<and>
   fst (TMux_run out_keep out_world) = Inr SUCCESS \<and>
   fst (Git_run out_keep out_world) = Inl FileNotFoundError"
  by code_simp

section \<open>The Zsh installer\<close>




section \<open>Paths and directories\<close>

lemma Path_names:
  "Path ''resources'' = PosixPath False [''resources'']"
  "Path ''.tmux.conf'' = PosixPath False [''.tmux.conf'']"
  "Path ''.vimperatorrc'' = PosixPath False [''.vimperatorrc'']"
  "Path ''.gdbinit'' = PosixPath False [''.gdbinit'']"
  "Path ''.fvwm2rc'' = PosixPath False [''.fvwm2rc'']"
  "Path ''.gitconfig'' = PosixPath False [''.gitconfig'']"
  "Path ''.zshrc'' = PosixPath False [''.zshrc'']"
  "Path ''.zshenv'' = PosixPath False [''.zshenv'']"
  "Path ''.zsh-completions'' = PosixPath False [''.zsh-completions'']"
  "Path ''.vimrc'' = PosixPath False [''.vimrc'']"
  "Path ''.vim'' = PosixPath False [''.vim'']"
  "Path ''autoload'' = PosixPath False [''autoload'']"
  "Path ''plug.vim'' = PosixPath False [''plug.vim'']"
  by (simp_all add: Path_def)


lemma joinpath_child: "joinpath d (PosixPath False [n]) = child d n"
  by (simp add: joinpath_def child_def)

lemma parent_child [simp]: "parent (child d n) = d"
  by (simp add: parent_def child_def)

lemma child_neq [simp]: "child d n \<noteq> d" "d \<noteq> child d n"
  by (cases d; simp add: child_def)+

lemma child_inject [simp]: "child d n = child d m \<longleftrightarrow> n = m"
  by (simp add: child_def)

lemma under_iff:
  "under d p \<longleftrightarrow> is_absolute p = is_absolute d \<and> (\<exists>ns. names p = names d @ ns)"
proof -
  have "take (length a) b = a \<longleftrightarrow> (\<exists>ns. b = a @ ns)" for a b :: "string list"
    by (metis append_eq_conv_conj)
  then show ?thesis
    by (simp add: under_def)
qed

lemma under_child [simp]: "under d (child d n)"
  by (simp add: under_iff child_def)

lemma under_child2 [simp]: "under d p \<Longrightarrow> under d (child p n)"
  by (auto simp: under_iff child_def)

lemma is_absolute_child [simp]: "is_absolute (child d n) = is_absolute d"
  by (simp add: child_def)

lemma joinpath_absolute [simp]: "is_absolute p \<Longrightarrow> joinpath d p = p"
  by (simp add: joinpath_def)

lemma RESOURCES_PATH_absolute [simp]: "is_absolute (RESOURCES_PATH w)"
  by (simp add: RESOURCES_PATH_def Path_names joinpath_def parent_def)

lemma empty_dir_child: "empty_dir fs d \<Longrightarrow> fs (child d n) = None"
  by (simp add: empty_dir_def)

lemma stat_Symlink_File:
  "fs p = Some (Symlink t) \<Longrightarrow> fs (joinpath (parent p) t) = Some (File c) \<Longrightarrow>
     stat fs p = Some (joinpath (parent p) t)"
  by (simp add: stat_def SYMLOOP_MAX_def eval_nat_numeral)

lemma stat_Symlink_abs:
  "fs p = Some (Symlink t) \<Longrightarrow> is_absolute t \<Longrightarrow> fs t = Some (File c) \<Longrightarrow> stat fs p = Some t"
  using stat_Symlink_File [of fs p t c] by simp

lemma strip_git_config:
  "strip (format1 GIT_CONFIG_TEMPLATE s) = spec_git_config_wrapper s"
  by (simp add: GIT_CONFIG_TEMPLATE_def text_block_def strip_def isspace_def
      spec_git_config_wrapper_def)

section \<open>The Vim installer\<close>

text \<open>
  What a copy leaves alone: a regular file at another path than the destination stays as
  it is, through \<^verbatim>\<open>CopyFile.run\<close> and through the \<^verbatim>\<open>.vimrc\<close> block of \<^verbatim>\<open>Vim.run\<close>.
\<close>

lemma Vim_paths:
  "Vim_dot_vim options = child (child (dest_dir options) ''.vim'') ''autoload''"
  "Vim_plug_vim options = child (child (child (dest_dir options) ''.vim'') ''autoload'') ''plug.vim''"
  by (simp_all add: Vim_dot_vim_def Vim_plug_vim_def Path_names joinpath_child)

lemma resolve_w_absent:
  "resolve n fs p = None \<Longrightarrow> resolve_w n fs p = Inr r \<Longrightarrow> fs r = None"
  by (induction n fs p rule: resolve_w.induct) (auto split: option.splits node.splits)

lemma resolve_w_self:
  "fs p = None \<or> (\<exists>c. fs p = Some (File c)) \<or> fs p = Some Dir \<Longrightarrow> resolve_w (Suc n) fs p = Inr r \<Longrightarrow> r = p"
  by (auto split: option.splits node.splits)

lemma write_text_other:
  assumes "files w p = Some (File c)" "p \<noteq> q" "\<not> exists w q \<or> \<not> is_symlink w q"
  shows "files (snd (write_text q c' w)) p = Some (File c)"
proof (cases "resolve_w (Suc SYMLOOP_MAX) (files w) q")
  case (Inl e)
  then show ?thesis
    using assms(1) by (simp add: write_text_def del: resolve_w.simps)
next
  case (Inr r)
  have "r \<noteq> p"
  proof (cases "exists w q")
    case False
    then have "resolve (Suc SYMLOOP_MAX) (files w) q = None"
      by (simp add: exists_def stat_def)
    then have "files w r = None"
      using Inr by (rule resolve_w_absent)
    with assms(1) show ?thesis
      by auto
  next
    case True
    with assms(3) have "\<not> is_symlink w q"
      by simp
    then have "files w q = None \<or> (\<exists>c. files w q = Some (File c)) \<or> files w q = Some Dir"
      by (auto simp: is_symlink_def split: option.splits node.splits)
    then have "r = q"
      using Inr by (rule resolve_w_self)
    with assms(2) show ?thesis
      by simp
  qed
  with Inr show ?thesis
    using assms(1) by (simp add: write_text_def del: resolve_w.simps)
qed

lemma copy_other:
  assumes "files w p = Some (File c)" "p \<noteq> dst" "\<not> exists w dst \<or> \<not> is_symlink w dst \<and> is_file w dst"
  shows "files (snd (copy src dst w)) p = Some (File c)"
proof -
  have "\<not> is_dir w dst"
    using assms(3) by (auto simp: exists_def is_dir_def is_file_def split: option.splits node.splits)
  moreover have "files (snd (write_text dst c' w)) p = Some (File c)" for c'
    using assms by (intro write_text_other) auto
  ultimately show ?thesis
    using assms(1) by (simp add: copy_def split: option.splits node.splits)
qed

lemma CopyFile_run_other:
  assumes "files w p = Some (File c)" "p \<noteq> CopyFile_dst options dp"
  shows "files (snd (CopyFile_run options s dp w)) p = Some (File c)"
proof -
  let ?dst = "CopyFile_dst options dp"
  have and_then_copy: "files (snd (CopyFile_copy s ?dst v)) p = files (snd (copy s ?dst v)) p" for v
    by (cases "copy s ?dst v") (auto simp: CopyFile_copy_def and_then_def split: sum.splits)
  have 1: "files (snd (CopyFile_copy s ?dst w)) p = Some (File c)"
    if "\<not> exists w ?dst \<or> \<not> is_symlink w ?dst \<and> is_file w ?dst"
    using assms that by (simp add: and_then_copy copy_other)
  have 2: "files (snd (and_then (unlink ?dst) (\<lambda>_. CopyFile_copy s ?dst) w)) p = Some (File c)"
    if "is_symlink w ?dst"
  proof -
    from that obtain t where t: "files w ?dst = Some (Symlink t)"
      by (auto simp: is_symlink_iff)
    let ?w' = "w\<lparr>files := (files w)(?dst := None)\<rparr>"
    have "files ?w' p = Some (File c)" "\<not> exists ?w' ?dst"
      using assms by (simp_all add: not_exists_absent)
    then have "files (snd (CopyFile_copy s ?dst ?w')) p = Some (File c)"
      using assms(2) by (simp add: and_then_copy copy_other)
    then show ?thesis
      using t by (simp add: and_then_def unlink_def)
  qed
  show ?thesis
    using assms(1) 1 2 by (simp add: CopyFile_run_def Let_def)
qed

lemma with_tmp_other:
  assumes "files w p = Some (File c)"
    and "\<And>f v. f \<noteq> p \<Longrightarrow> files v p = Some (File c) \<Longrightarrow> files (snd (body f v)) p = Some (File c)"
  shows "files (snd (with_NamedTemporaryFile body w)) p = Some (File c)"
proof -
  let ?t = "tmp_supply w (tmp_counter w)"
  let ?w1 = "w\<lparr>tmp_counter := Suc (tmp_counter w), files := (files w)(?t \<mapsto> File [])\<rparr>"
  show ?thesis
  proof (cases "files w ?t")
    case None
    with assms(1) have ne: "?t \<noteq> p"
      by auto
    then have "files ?w1 p = Some (File c)"
      using assms(1) by simp
    with ne have "files (snd (body ?t ?w1)) p = Some (File c)"
      by (rule assms(2))
    moreover obtain r w2 where "body ?t ?w1 = (r, w2)"
      by (cases "body ?t ?w1")
    ultimately show ?thesis
      using None ne by (simp add: with_NamedTemporaryFile_def NamedTemporaryFile_def Let_def)
  next
    case (Some x)
    then show ?thesis
      using assms(1) by (simp add: with_NamedTemporaryFile_def NamedTemporaryFile_def Let_def)
  qed
qed

lemma Vim_vimrc_other:
  assumes "files w p = Some (File c)" "p \<noteq> CopyFile_dst options (Vim_dst_path options)"
  shows "files (snd (Vim_vimrc options w)) p = Some (File c)"
  unfolding Vim_vimrc_def
proof (rule with_tmp_other [OF assms(1)])
  fix f and v :: world
  assume "f \<noteq> p" "files v p = Some (File c)"
  then have "files (v\<lparr>files := (files v)(f \<mapsto> File x)\<rparr>) p = Some (File c)" for x
    by simp
  then have "files (snd (CopyFile_run options f (Vim_dst_path options)
       (v\<lparr>files := (files v)(f \<mapsto> File x)\<rparr>))) p = Some (File c)" for x
    using assms(2) by (rule CopyFile_run_other)
  then show "files (snd (let conf_path = joinpath (RESOURCES_PATH v) (Path ''.vimrc'')
       in if \<not> exists v conf_path then (Inl AssertionError, v)
          else and_then (f_write f (format1 VIMRC_TEMPLATE (str conf_path)))
                 (\<lambda>_. CopyFile_run options f (Vim_dst_path options)) v)) p = Some (File c)"
    using \<open>files v p = Some (File c)\<close> by (simp add: Let_def and_then_def f_write_def)
qed

lemma Vim_plug_vim_not_vimrc:
  "Vim_plug_vim options \<noteq> CopyFile_dst options (Vim_dst_path options)"
proof
  assume "Vim_plug_vim options = CopyFile_dst options (Vim_dst_path options)"
  then have "last (names (Vim_plug_vim options)) = last (names (CopyFile_dst options (Vim_dst_path options)))"
    by simp
  then show False
    by (simp add: Vim_plug_vim_def Vim_dot_vim_def CopyFile_dst_def Vim_dst_path_def Path_names
        joinpath_def split: if_splits)
qed

lemma parent_Vim_plug_vim: "parent (Vim_plug_vim options) = Vim_dot_vim options"
  by (simp add: Vim_paths)

text \<open>
  Claim C8. Once the directory step is over, \<^verbatim>\<open>Vim.run\<close> sends the request for
  \<^verbatim>\<open>plug.vim\<close> exactly when \<^verbatim>\<open>.vim/autoload/plug.vim\<close> does not exist or \<open>overwrite\<close> is on;
  otherwise the run is the \<^verbatim>\<open>.vimrc\<close> block alone. When the request is sent and the answer
  has a status other than 200, the run ends with \<open>AssertionError\<close> and no outcome. With
  status 200 the run goes on by writing the text of the answer to
  \<^verbatim>\<open>.vim/autoload/plug.vim\<close>, then the \<^verbatim>\<open>.vimrc\<close> block; and when \<^verbatim>\<open>.vim/autoload\<close> is a
  directory and \<^verbatim>\<open>plug.vim\<close> is free or a regular file, \<^verbatim>\<open>plug.vim\<close> holds that text at the
  end of the run.
\<close>

theorem Vim_run_download:
  "Vim_mkdir options (snd (program_exist (name Vim) ''vim'' w)) = (Inr (), w1) \<Longrightarrow>
   http_gets (snd (Vim_run options w)) =
     http_gets w @ (if \<not> exists w1 (Vim_plug_vim options) \<or> overwrite options
                    then [PLUG_VIM_URL] else []) \<and>
   (\<not> (\<not> exists w1 (Vim_plug_vim options) \<or> overwrite options) \<longrightarrow>
      Vim_run options w = Vim_vimrc options w1) \<and>
   (\<forall>status text.
      (\<not> exists w1 (Vim_plug_vim options) \<or> overwrite options) \<and>
      http_response w = Inr (status, text) \<and> status \<noteq> 200 \<longrightarrow>
        Vim_run options w = (Inl AssertionError, w1\<lparr>http_gets := http_gets w1 @ [PLUG_VIM_URL]\<rparr>)) \<and>
   (\<forall>text.
      (\<not> exists w1 (Vim_plug_vim options) \<or> overwrite options) \<and>
      http_response w = Inr (200, text) \<longrightarrow>
        Vim_run options w =
          and_then (write_text (Vim_plug_vim options) text) (\<lambda>_. Vim_vimrc options)
            (w1\<lparr>http_gets := http_gets w1 @ [PLUG_VIM_URL]\<rparr>) \<and>
        (files w1 (Vim_dot_vim options) = Some Dir \<and>
         (files w1 (Vim_plug_vim options) = None \<or>
          (\<exists>old. files w1 (Vim_plug_vim options) = Some (File old))) \<longrightarrow>
           files (snd (Vim_run options w)) (Vim_plug_vim options) = Some (File text)))"
proof -
  let ?w0 = "snd (program_exist (name Vim) ''vim'' w)"
  let ?pl = "Vim_plug_vim options"
  assume dir: "Vim_mkdir options ?w0 = (Inr (), w1)"
  have "same_env ?w0 (snd (Vim_mkdir options ?w0))"
    by (simp add: Vim_mkdir_def Let_def mkdir_parents_env)
  with dir have env: "same_env ?w0 w1"
    by simp
  have gets: "http_gets w1 = http_gets w" and resp: "http_response w1 = http_response w"
    using same_env_fields [OF env] by (simp_all add: program_exist_fields)
  have run: "Vim_run options w = and_then (Vim_plug options) (\<lambda>_. Vim_vimrc options) w1"
    using dir by (simp add: Vim_run_def Let_def and_then_def)
  let ?go = "\<not> exists w1 ?pl \<or> overwrite options"
  let ?w2 = "w1\<lparr>http_gets := http_gets w1 @ [PLUG_VIM_URL]\<rparr>"
  have plug_gets: "http_gets (snd (Vim_plug options w1)) =
      http_gets w @ (if ?go then [PLUG_VIM_URL] else [])"
    using same_env_fields(9) [OF write_text_env [of ?w2]] gets
    by (auto simp: Vim_plug_def Let_def and_then_def requests_get_def split: sum.splits)
  have 1: "http_gets (snd (Vim_run options w)) =
      http_gets w @ (if ?go then [PLUG_VIM_URL] else [])"
  proof (cases "Vim_plug options w1")
    case (Pair r w2)
    with plug_gets run show ?thesis
      by (cases r) (simp_all add: and_then_def Vim_vimrc_fields)
  qed
  have 0: "Vim_run options w = Vim_vimrc options w1" if "\<not> ?go"
    using that run by (simp add: Vim_plug_def Let_def and_then_def)
  have 2: "Vim_run options w = (Inl AssertionError, ?w2)"
    if "?go" "http_response w = Inr (status, body)" "status \<noteq> 200" for status body
    using that run resp by (auto simp: Vim_plug_def Let_def and_then_def requests_get_def)
  have 3: "Vim_run options w =
      and_then (write_text ?pl body) (\<lambda>_. Vim_vimrc options) ?w2"
    if "?go" "http_response w = Inr (200, body)" for body
    using that resp run by (auto simp: Vim_plug_def Let_def and_then_def requests_get_def)
  have 4: "files (snd (Vim_run options w)) ?pl = Some (File body)"
    if "?go" "http_response w = Inr (200, body)" "files w1 (Vim_dot_vim options) = Some Dir"
      "files w1 ?pl = None \<or> (\<exists>old. files w1 ?pl = Some (File old))" for body
  proof -
    let ?w3 = "?w2\<lparr>files := (files ?w2)(?pl \<mapsto> File body)\<rparr>"
    have "resolve_w (Suc SYMLOOP_MAX) (files ?w2) ?pl = Inr ?pl"
      using that(3,4) by (auto simp: parent_Vim_plug_vim)
    then have "write_text ?pl body ?w2 = (Inr (), ?w3)"
      by (simp add: write_text_def del: resolve_w.simps)
    then have "Vim_run options w = Vim_vimrc options ?w3"
      using 3 [OF that(1,2)] by (simp add: and_then_def)
    moreover have "files (snd (Vim_vimrc options ?w3)) ?pl = Some (File body)"
      by (rule Vim_vimrc_other) (simp_all add: Vim_plug_vim_not_vimrc)
    ultimately show ?thesis
      by simp
  qed
  from 0 1 2 3 4 show ?thesis
    by blast
qed

text \<open>
  No local copy: one request, and \<^verbatim>\<open>plug.vim\<close> holds the answer. A local copy: no request
  with \<open>overwrite\<close> off, and with \<open>overwrite\<close> on one request and the old copy replaced by the
  answer. An answer 404: \<open>AssertionError\<close>.
\<close>

theorem Vim_run_download_witness:
  "http_gets (snd (Vim_run keep (home_tree [([''.vim''], Dir), ([''.vim'', ''autoload''], Dir)]))) =
     [PLUG_VIM_URL] \<and>
   files (snd (Vim_run keep (home_tree [([''.vim''], Dir), ([''.vim'', ''autoload''], Dir)])))
     (Vim_plug_vim keep) = Some (File ''plug'') \<and>
   http_gets (snd (Vim_run keep (home_tree [([''.vim''], Dir), ([''.vim'', ''autoload''], Dir),
       ([''.vim'', ''autoload'', ''plug.vim''], File ''old'')]))) = [] \<and>
   Vim_run keep (home_tree [([''.vim''], Dir), ([''.vim'', ''autoload''], Dir),
       ([''.vim'', ''autoload'', ''plug.vim''], File ''old'')]) =
     Vim_vimrc keep (home_tree [([''.vim''], Dir), ([''.vim'', ''autoload''], Dir),
       ([''.vim'', ''autoload'', ''plug.vim''], File ''old'')]) \<and>
   http_gets (snd (Vim_run replace (home_tree [([''.vim''], Dir), ([''.vim'', ''autoload''], Dir),
       ([''.vim'', ''autoload'', ''plug.vim''], File ''old'')]))) = [PLUG_VIM_URL] \<and>
   files (snd (Vim_run replace (home_tree [([''.vim''], Dir), ([''.vim'', ''autoload''], Dir),
       ([''.vim'', ''autoload'', ''plug.vim''], File ''old'')]))) (Vim_plug_vim replace) =
     Some (File ''plug'') \<and>
   Vim_run keep ((home_tree [([''.vim''], Dir), ([''.vim'', ''autoload''], Dir)])
       \<lparr>http_response := Inr (404, ''Not Found'')\<rparr>) =
     (Inl AssertionError, (home_tree [([''.vim''], Dir), ([''.vim'', ''autoload''], Dir)])
       \<lparr>http_response := Inr (404, ''Not Found''),
        http_gets := http_gets ((home_tree [([''.vim''], Dir), ([''.vim'', ''autoload''], Dir)])
          \<lparr>http_response := Inr (404, ''Not Found'')\<rparr>) @ [PLUG_VIM_URL]\<rparr>)"
proof -
  let ?a = "home_tree [([''.vim''], Dir), ([''.vim'', ''autoload''], Dir)]"
  let ?b = "home_tree [([''.vim''], Dir), ([''.vim'', ''autoload''], Dir),
       ([''.vim'', ''autoload'', ''plug.vim''], File ''old'')]"
  let ?c = "?a\<lparr>http_response := Inr (404, ''Not Found'')\<rparr>"
  have a: "programs ?a ''vim''" "exists ?a (Vim_dot_vim keep)" "http_gets ?a = []"
    "\<not> exists ?a (Vim_plug_vim keep)" "http_response ?a = Inr (200, ''plug'')"
    "files ?a (Vim_dot_vim keep) = Some Dir" "files ?a (Vim_plug_vim keep) = None"
    by code_simp+
  have b: "programs ?b ''vim''" "exists ?b (Vim_dot_vim keep)" "http_gets ?b = []"
    "exists ?b (Vim_plug_vim keep)" "\<not> overwrite keep"
    "exists ?b (Vim_dot_vim replace)" "overwrite replace"
    "http_response ?b = Inr (200, ''plug'')"
    "files ?b (Vim_dot_vim replace) = Some Dir" "files ?b (Vim_plug_vim replace) = Some (File ''old'')"
    by code_simp+
  have c: "programs ?c ''vim''" "exists ?c (Vim_dot_vim keep)"
    "\<not> exists ?c (Vim_plug_vim keep)" "http_response ?c = Inr (404, ''Not Found'')"
    by code_simp+
  have ma: "Vim_mkdir keep (snd (program_exist (name Vim) ''vim'' ?a)) = (Inr (), ?a)"
    using a(1,2) by (simp add: program_exist_installed Vim_mkdir_def)
  have mb: "Vim_mkdir keep (snd (program_exist (name Vim) ''vim'' ?b)) = (Inr (), ?b)"
    using b(1,2) by (simp add: program_exist_installed Vim_mkdir_def)
  have mb': "Vim_mkdir replace (snd (program_exist (name Vim) ''vim'' ?b)) = (Inr (), ?b)"
    using b(1,6) by (simp add: program_exist_installed Vim_mkdir_def)
  have mc: "Vim_mkdir keep (snd (program_exist (name Vim) ''vim'' ?c)) = (Inr (), ?c)"
    using c(1,2) by (simp add: program_exist_installed Vim_mkdir_def)
  have 1: "http_gets (snd (Vim_run keep ?a)) = [PLUG_VIM_URL]"
    using Vim_run_download [OF ma, THEN conjunct1] a(3,4) by simp
  have 2: "files (snd (Vim_run keep ?a)) (Vim_plug_vim keep) = Some (File ''plug'')"
    using Vim_run_download [OF ma] a(4,5,6,7) by blast
  have 3: "http_gets (snd (Vim_run keep ?b)) = []"
    using Vim_run_download [OF mb, THEN conjunct1] b(3,4,5) by simp
  have 4: "Vim_run keep ?b = Vim_vimrc keep ?b"
    using Vim_run_download [OF mb] b(4,5) by blast
  have 5: "http_gets (snd (Vim_run replace ?b)) = [PLUG_VIM_URL]"
    using Vim_run_download [OF mb', THEN conjunct1] b(3,7) by simp
  have 6: "files (snd (Vim_run replace ?b)) (Vim_plug_vim replace) = Some (File ''plug'')"
    using Vim_run_download [OF mb'] b(7,8,9,10) by blast
  have 7: "Vim_run keep ?c = (Inl AssertionError, ?c\<lparr>http_gets := http_gets ?c @ [PLUG_VIM_URL]\<rparr>)"
    using Vim_run_download [OF mc] c(3,4) by simp
  from 1 2 3 4 5 6 7 show ?thesis
    by simp
qed

section \<open>The simple installers\<close>

lemma SymLink_run_skip:
  "exists w (SymLink_src w f) \<Longrightarrow> exists w (SymLink_dst options f) \<Longrightarrow> \<not> overwrite options \<Longrightarrow>
     SymLink_run options f w = (Inr SKIP, w)"
  by (simp add: SymLink_run_def)

lemma SymLink_run_fresh:
  "exists w (SymLink_src w f) \<Longrightarrow> files w (SymLink_dst options f) = None \<Longrightarrow>
   files w (parent (SymLink_dst options f)) = Some Dir \<Longrightarrow>
     SymLink_run options f w =
       (Inr SUCCESS, w\<lparr>files := (files w)(SymLink_dst options f \<mapsto> Symlink (SymLink_src w f))\<rparr>)"
  by (simp add: SymLink_run_def not_exists_absent SymLink_link_free)

lemma SymLink_run_replace:
  assumes "exists w (SymLink_src w f)" "exists w (SymLink_dst options f)" "overwrite options"
    and "is_symlink w (SymLink_dst options f)"
    and "files w (parent (SymLink_dst options f)) = Some Dir"
  shows "unlink (SymLink_dst options f) w =
       (Inr (), w\<lparr>files := (files w)(SymLink_dst options f := None)\<rparr>)"
    and "SymLink_run options f w =
       (Inr SUCCESS, w\<lparr>files := (files w)(SymLink_dst options f \<mapsto> Symlink (SymLink_src w f))\<rparr>)"
proof -
  let ?src = "SymLink_src w f"
  let ?dst = "SymLink_dst options f"
  from assms(4) obtain t where t: "files w ?dst = Some (Symlink t)"
    by (auto simp: is_symlink_iff)
  with assms(5) have ne: "parent ?dst \<noteq> ?dst"
    by auto
  from t show u: "unlink ?dst w = (Inr (), w\<lparr>files := (files w)(?dst := None)\<rparr>)"
    by (simp add: unlink_def)
  have "SymLink_link ?dst ?src (w\<lparr>files := (files w)(?dst := None)\<rparr>) =
      (Inr SUCCESS, w\<lparr>files := (files w)(?dst \<mapsto> Symlink ?src)\<rparr>)"
    using assms(5) ne by (subst SymLink_link_free) simp_all
  with assms u show "SymLink_run options f w =
      (Inr SUCCESS, w\<lparr>files := (files w)(?dst \<mapsto> Symlink ?src)\<rparr>)"
    by (simp add: SymLink_run_def and_then_def)
qed

lemma simple_installer_run:
  assumes "(i, f) \<in> set simple_installers"
  shows "\<exists>s. run i options w = SymLink_run options f (w\<lparr>stdout := s\<rparr>)"
proof -
  have *: "\<exists>s. snd (program_exist b p v) = v\<lparr>stdout := s\<rparr>" for b p and v :: world
    by (cases "programs v p") (auto simp: program_exist_def intro: exI [of _ "stdout v"])
  from assms consider "i = TMux" "f = ''.tmux.conf''" | "i = Vimperator" "f = ''.vimperatorrc''"
    | "i = Gdb" "f = ''.gdbinit''" | "i = Fvwm2" "f = ''.fvwm2rc''"
    by (auto simp: simple_installers_def)
  then show ?thesis
  proof cases
    case 1
    obtain s1 where s1: "snd (program_exist (name TMux) ''tmux'' w) = w\<lparr>stdout := s1\<rparr>"
      using * by blast
    obtain s2 where "snd (program_exist (name TMux) ''xsel'' (w\<lparr>stdout := s1\<rparr>)) =
        w\<lparr>stdout := s1\<rparr>\<lparr>stdout := s2\<rparr>"
      using * by blast
    with 1 s1 show ?thesis
      by (auto simp: TMux_run_def Let_def)
  next
    case 2
    then show ?thesis
      by (auto simp: Vimperator_run_def intro: exI [of _ "stdout w"])
  next
    case 3
    with * [of "name Gdb" "''gdb''" w] show ?thesis
      by (auto simp: Gdb_run_def Let_def)
  next
    case 4
    with * [of "name Fvwm2" "''fvwm2''" w] show ?thesis
      by (auto simp: Fvwm2_run_def Let_def)
  qed
qed

lemma simple_installer_paths:
  assumes "(i, f) \<in> set simple_installers"
  shows "SymLink_src w f = child (RESOURCES_PATH w) f" "SymLink_dst options f = child (dest_dir options) f"
  using assms
  by (auto simp: simple_installers_def SymLink_src_def SymLink_dst_def Path_names joinpath_child)

lemma SymLink_src_stdout [simp]: "SymLink_src (w\<lparr>stdout := s\<rparr>) f = SymLink_src w f"
  by (simp add: SymLink_src_def RESOURCES_PATH_def)

lemma exists_cong: "files w = files v \<Longrightarrow> exists w p = exists v p"
  by (simp add: exists_def)

lemma empty_dir_fresh_home: "empty_dir (files fresh_home) home"
  by (auto simp: empty_dir_def fresh_home_def demo_world_def demo_resources_def home_def under_def)


text \<open>
  Claim C3. For each simple installer (tmux, vimperator, gdb, fvwm2) with \<open>overwrite\<close> off,
  an empty destination directory and a non-empty regular file as its resource: the first
  run returns \<open>SUCCESS\<close>, after it the destination exists and has the size of the resource,
  which is positive; the second run, right after, returns \<open>SKIP\<close> and leaves every file as
  it was.
\<close>

theorem simple_installer_twice:
  assumes "(i, f) \<in> set simple_installers" and "\<not> overwrite options"
    and "empty_dir (files w) (dest_dir options)"
    and "files w (SymLink_src w f) = Some (File c)" and "c \<noteq> []"
  shows "fst (run i options w) = Inr SUCCESS \<and>
    exists (snd (run i options w)) (SymLink_dst options f) \<and>
    st_size (snd (run i options w)) (SymLink_dst options f) = Some (length c) \<and> 0 < length c \<and>
    fst (run i options (snd (run i options w))) = Inr SKIP \<and>
    files (snd (run i options (snd (run i options w)))) = files (snd (run i options w))"
proof -
  let ?src = "SymLink_src w f"
  let ?dst = "SymLink_dst options f"
  note paths = simple_installer_paths [OF assms(1)]
  have abs: "is_absolute ?src"
    by (simp add: paths)
  have dst: "files w ?dst = None" and par: "files w (parent ?dst) = Some Dir"
    using assms(3) by (simp_all add: paths empty_dir_child) (simp add: empty_dir_def)
  from dst assms(4) have ne: "?src \<noteq> ?dst"
    by auto
  obtain s where run1: "run i options w = SymLink_run options f (w\<lparr>stdout := s\<rparr>)"
    using simple_installer_run [OF assms(1)] by blast
  let ?w0 = "w\<lparr>stdout := s\<rparr>"
  let ?w1 = "?w0\<lparr>files := (files w)(?dst \<mapsto> Symlink ?src)\<rparr>"
  have "exists ?w0 (SymLink_src ?w0 f)"
    using assms(4) by (simp add: exists_def stat_File)
  then have "SymLink_run options f ?w0 = (Inr SUCCESS, ?w1)"
    using dst par by (subst SymLink_run_fresh) simp_all
  with run1 have r1: "run i options w = (Inr SUCCESS, ?w1)"
    by simp
  have link: "files ?w1 ?dst = Some (Symlink ?src)"
    and target: "files ?w1 ?src = Some (File c)"
    using assms(4) ne by simp_all
  have st: "stat (files ?w1) ?dst = Some ?src"
    using link abs target by (rule stat_Symlink_abs)
  have ex1: "exists ?w1 ?dst"
    using st by (simp add: exists_def)
  have size: "st_size ?w1 ?dst = Some (length c)"
    using target by (simp only: st_size_def st) simp
  obtain s' where run2: "run i options ?w1 = SymLink_run options f (?w1\<lparr>stdout := s'\<rparr>)"
    using simple_installer_run [OF assms(1)] by blast
  let ?w2 = "?w1\<lparr>stdout := s'\<rparr>"
  have "exists ?w2 (SymLink_src ?w2 f)"
    using assms(4) ne by (simp add: exists_def stat_File SymLink_src_def RESOURCES_PATH_def)
  moreover have "exists ?w2 ?dst"
    using ex1 by (simp add: exists_def)
  ultimately have "SymLink_run options f ?w2 = (Inr SKIP, ?w2)"
    using assms(2) by (rule SymLink_run_skip)
  with run2 have r2: "run i options ?w1 = (Inr SKIP, ?w2)"
    by simp
  show ?thesis
    using r1 r2 ex1 size assms(5) by simp
qed

text \<open>The tmux installer, twice, in the empty \<^verbatim>\<open>/home/u\<close>.\<close>

theorem simple_installer_twice_witness:
  "fst (run TMux keep fresh_home) = Inr SUCCESS \<and>
   exists (snd (run TMux keep fresh_home)) (SymLink_dst keep ''.tmux.conf'') \<and>
   st_size (snd (run TMux keep fresh_home)) (SymLink_dst keep ''.tmux.conf'') = Some 15 \<and>
   fst (run TMux keep (snd (run TMux keep fresh_home))) = Inr SKIP \<and>
   files (snd (run TMux keep (snd (run TMux keep fresh_home)))) = files (snd (run TMux keep fresh_home))"
proof -
  have 1: "(TMux, ''.tmux.conf'') \<in> set simple_installers"
    by (simp add: simple_installers_def)
  have 2: "\<not> overwrite keep" "dest_dir keep = home"
    by (simp_all add: keep_def)
  have 3: "files fresh_home (SymLink_src fresh_home ''.tmux.conf'') = Some (File ''set -g mouse on'')"
    by code_simp
  have 4: "''set -g mouse on'' \<noteq> []" "length ''set -g mouse on'' = 15"
    by simp_all
  show ?thesis
    using simple_installer_twice [OF 1 2(1) _ 3 4(1)] empty_dir_fresh_home 2(2) 4(2)
    by simp
qed


section \<open>The Git installer\<close>

lemma program_exist_stdout: "\<exists>s. snd (program_exist b p v) = v\<lparr>stdout := s\<rparr>"
  by (cases "programs v p") (auto simp: program_exist_def intro: exI [of _ "stdout v"])

lemma CopyFile_success_absent:
  assumes "CopyFile_run options t dp w = (Inr SUCCESS, w')" and "files w t = Some (File c)"
    and "files w (CopyFile_dst options dp) = None"
  shows "files w (parent (CopyFile_dst options dp)) = Some Dir"
    and "w' = w\<lparr>files := (files w)(CopyFile_dst options dp \<mapsto> File c)\<rparr>"
proof -
  let ?e = "CopyFile_dst options dp"
  have t: "stat (files w) t = Some t" "exists w t"
    using assms(2) by (simp_all add: exists_def stat_File)
  have e: "stat (files w) ?e = None" "\<not> exists w ?e"
    using assms(3) by (simp_all add: exists_def stat_None)
  have "CopyFile_run options t dp w = and_then (write_text ?e c) (\<lambda>_ w. (Inr SUCCESS, w)) w"
    using t e assms(2)
    by (simp add: CopyFile_run_def CopyFile_copy_def copy_def is_dir_def samefile_def
        and_then_def Let_def)
  with assms(1) have w: "write_text ?e c w = (Inr (), w')"
    by (cases "write_text ?e c w") (auto simp: and_then_def split: sum.splits)
  then show "files w (parent ?e) = Some Dir"
    using assms(3) by (auto simp: write_text_def split: option.splits node.splits)
  with w assms(3) show "w' = w\<lparr>files := (files w)(?e \<mapsto> File c)\<rparr>"
    by (auto simp: write_text_def)
qed

lemma CopyFile_not_success_same:
  assumes "files w t = Some (File c)" and "CopyFile_dst options dp = t"
  shows "fst (CopyFile_run options t dp w) \<noteq> Inr SUCCESS"
proof -
  have "stat (files w) t = Some t" "exists w t" "\<not> is_symlink w t" "is_file w t" "\<not> is_dir w t"
    using assms(1) by (simp_all add: exists_def stat_File is_symlink_def is_file_def is_dir_def)
  then show ?thesis
    using assms
    by (simp add: CopyFile_run_def CopyFile_copy_def copy_def samefile_def and_then_def)
qed

lemma twice_joined:
  "under d (joinpath d (child d n))" "joinpath d (child d n) \<noteq> d"
  "is_absolute d \<or> names d = [] \<Longrightarrow> joinpath d (child d n) = child d n"
  "\<not> (is_absolute d \<or> names d = []) \<Longrightarrow>
     under d (parent (joinpath d (child d n))) \<and> parent (joinpath d (child d n)) \<noteq> d"
  by (cases d; auto simp: joinpath_def child_def under_iff parent_def butlast_append)+

lemma with_tmp_success:
  assumes "with_NamedTemporaryFile body w = (Inr r, w')"
    and "t = tmp_supply w (tmp_counter w)"
    and "w1 = w\<lparr>tmp_counter := Suc (tmp_counter w), files := (files w)(t \<mapsto> File [])\<rparr>"
  shows "files w t = None"
    and "\<exists>w3. body t w1 = (Inr r, w3) \<and> w' = w3\<lparr>files := (files w3)(t := None)\<rparr>"
  using assms
  by (auto simp: with_NamedTemporaryFile_def NamedTemporaryFile_def Let_def
      split: if_splits prod.splits)


text \<open>
  Claim C5. When \<^verbatim>\<open>Git.run\<close> on an empty destination directory returns \<open>SUCCESS\<close>, the
  file \<^verbatim>\<open>.gitconfig\<close> of the destination holds the template with the resource path put in
  and the white space at both ends stripped, which is the text the specification gives;
  the resource path is absolute; the file exists and is not empty; its text contains
  \<^verbatim>\<open>[filter "lfs"]\<close>.
\<close>

theorem Git_run_gitconfig:
  assumes "Git_run options w = (Inr SUCCESS, w')"
    and "empty_dir (files w) (dest_dir options)"
  shows "files w' (joinpath (dest_dir options) (Path ''.gitconfig'')) =
      Some (File (strip (format1 GIT_CONFIG_TEMPLATE
         (str (joinpath (RESOURCES_PATH w) (Path ''.gitconfig''))))))
    \<and> strip (format1 GIT_CONFIG_TEMPLATE (str (joinpath (RESOURCES_PATH w) (Path ''.gitconfig'')))) =
        spec_git_config_wrapper (str (joinpath (RESOURCES_PATH w) (Path ''.gitconfig'')))
    \<and> is_absolute (joinpath (RESOURCES_PATH w) (Path ''.gitconfig''))
    \<and> exists w' (joinpath (dest_dir options) (Path ''.gitconfig''))
    \<and> (\<exists>n. 0 < n \<and> st_size w' (joinpath (dest_dir options) (Path ''.gitconfig'')) = Some n)
    \<and> (\<exists>pre post. strip (format1 GIT_CONFIG_TEMPLATE
           (str (joinpath (RESOURCES_PATH w) (Path ''.gitconfig'')))) =
         pre @ ''[filter '' @ [CHR 0x22] @ ''lfs'' @ [CHR 0x22] @ '']'' @ post)"
proof -
  let ?d = "dest_dir options"
  let ?gc = "child ?d ''.gitconfig''"
  let ?src = "child (RESOURCES_PATH w) ''.gitconfig''"
  let ?c = "strip (format1 GIT_CONFIG_TEMPLATE (str ?src))"
  let ?t = "tmp_supply w (tmp_counter w)"
  let ?e = "CopyFile_dst options (Git_dst_path options)"
  obtain s1 where "snd (program_exist ''git'' ''git'' w) = w\<lparr>stdout := s1\<rparr>"
    using program_exist_stdout by blast
  moreover obtain s2 where "snd (program_exist ''git'' ''git-lfs'' (w\<lparr>stdout := s1\<rparr>)) =
      w\<lparr>stdout := s1\<rparr>\<lparr>stdout := s2\<rparr>"
    using program_exist_stdout by blast
  ultimately have w0: "snd (program_exist ''git'' ''git-lfs''
      (snd (program_exist ''git'' ''git'' w))) = w\<lparr>stdout := s2\<rparr>"
    by simp
  let ?w0 = "w\<lparr>stdout := s2\<rparr>"
  have e_def: "?e = joinpath ?d ?gc"
    by (simp add: CopyFile_dst_def Git_dst_path_def Path_names joinpath_child)
  let ?body = "\<lambda>f w.
           let src = joinpath (RESOURCES_PATH w) (Path ''.gitconfig'')
           in if \<not> exists w src then (Inl AssertionError, w)
              else and_then (f_write f (strip (format1 GIT_CONFIG_TEMPLATE (str src))))
                     (\<lambda>_. CopyFile_run options f (Git_dst_path options)) w"
  have run: "with_NamedTemporaryFile ?body ?w0 = (Inr SUCCESS, w')"
    using assms(1) by (simp add: Git_run_def Let_def w0)
  let ?w1 = "?w0\<lparr>tmp_counter := Suc (tmp_counter w), files := (files w)(?t \<mapsto> File [])\<rparr>"
  let ?w2 = "?w1\<lparr>files := (files w)(?t \<mapsto> File ?c)\<rparr>"
  have "files ?w0 ?t = None"
    "\<exists>w3. ?body ?t ?w1 = (Inr SUCCESS, w3) \<and> w' = w3\<lparr>files := (files w3)(?t := None)\<rparr>"
    by (rule with_tmp_success [OF run, of ?t ?w1]; simp)+
  then obtain w3 where fresh: "files w ?t = None"
    and body: "?body ?t ?w1 = (Inr SUCCESS, w3)"
    and w': "w' = w3\<lparr>files := (files w3)(?t := None)\<rparr>"
    by auto
  have src1: "joinpath (RESOURCES_PATH ?w1) (Path ''.gitconfig'') = ?src"
    by (simp add: RESOURCES_PATH_def Path_names joinpath_child)
  have copy: "CopyFile_run options ?t (Git_dst_path options) ?w2 = (Inr SUCCESS, w3)"
    using body unfolding Let_def src1
    by (auto simp: and_then_def f_write_def split: if_splits)
  have tf: "files ?w2 ?t = Some (File ?c)"
    by simp
  have "?e \<noteq> ?t"
    using CopyFile_not_success_same [OF tf, of options "Git_dst_path options"] copy by auto
  moreover have "files w ?e = None"
    using assms(2) twice_joined(1,2) [of ?d] by (simp add: e_def empty_dir_def)
  ultimately have absent: "files ?w2 ?e = None"
    by simp
  note ok = CopyFile_success_absent [OF copy tf absent]
  have once: "is_absolute ?d \<or> names ?d = []"
  proof (rule ccontr)
    assume "\<not> ?thesis"
    with twice_joined(4) [of ?d] assms(2) have "files w (parent ?e) = None"
      by (simp add: e_def empty_dir_def)
    with ok(1) show False
      by (auto split: if_splits)
  qed
  then have e: "?e = ?gc"
    by (simp add: e_def twice_joined(3))
  have gc: "files w' ?gc = Some (File ?c)"
    using ok(2) \<open>?e \<noteq> ?t\<close> by (simp add: w' e)
  have c: "?c = spec_git_config_wrapper (str ?src)"
    by (rule strip_git_config)
  have "?c \<noteq> []"
    by (simp add: c spec_git_config_wrapper_def)
  moreover have "exists w' ?gc" "st_size w' ?gc = Some (length ?c)"
    using gc by (simp_all add: exists_def st_size_def stat_File)
  moreover have "\<exists>pre post. ?c = pre @ ''[filter '' @ [CHR 0x22] @ ''lfs'' @ [CHR 0x22] @ '']'' @ post"
    unfolding c spec_git_config_wrapper_def
    by (intro exI [of _ "''[include]'' @ [CHR 0x0A] @ ''    path = '' @ str ?src @ [CHR 0x0A]"] exI) simp
  ultimately show ?thesis
    using gc c by (simp add: Path_names joinpath_child)
qed

text \<open>The Git installer in the empty \<^verbatim>\<open>/home/u\<close>.\<close>

theorem Git_run_gitconfig_witness:
  "files (snd (Git_run keep fresh_home)) (joinpath home (Path ''.gitconfig'')) =
     Some (File (spec_git_config_wrapper ''/opt/dotfiles/dotfiles/resources/.gitconfig'')) \<and>
   exists (snd (Git_run keep fresh_home)) (joinpath home (Path ''.gitconfig''))"
proof -
  have "fst (Git_run keep fresh_home) = Inr SUCCESS"
    by code_simp
  then have 1: "Git_run keep fresh_home = (Inr SUCCESS, snd (Git_run keep fresh_home))"
    by (simp add: prod_eq_iff)
  have 2: "dest_dir keep = home"
    by (simp add: keep_def)
  have 3: "str (joinpath (RESOURCES_PATH fresh_home) (Path ''.gitconfig'')) =
      ''/opt/dotfiles/dotfiles/resources/.gitconfig''"
    by code_simp
  show ?thesis
    using Git_run_gitconfig [OF 1] empty_dir_fresh_home 2 3
    by simp
qed

section \<open>The clone of the Zsh installer\<close>

lemma keeps_dirs_refl [simp]: "keeps_dirs w w"
  by (simp add: keeps_dirs_def)














lemma Zsh_run_unfold:
  "Zsh_run options w =
     and_then (Zsh_clone options) (\<lambda>_. Zsh_copies options) (snd (program_exist (name Zsh) ''zsh'' w))"
  by (simp add: Zsh_run_def Zsh_copies_def Let_def)




lemma Zsh_completions_dest [simp]:
  "Zsh_completions \<lparr>dest_dir = dest_dir options, overwrite = b\<rparr> = Zsh_completions options"
  by (simp add: Zsh_completions_def)





section \<open>Repeated runs with overwrite\<close>

lemma resolve_upd:
  "resolve n fs p = Some q \<Longrightarrow> \<forall>t. x \<noteq> Symlink t \<Longrightarrow> \<exists>q'. resolve n (fs(r \<mapsto> x)) p = Some q'"
proof (induction n fs p rule: resolve.induct)
  case (1 fs p)
  then show ?case by simp
next
  case (2 n fs p)
  show ?case
  proof (cases "p = r")
    case True
    with "2.prems"(2) show ?thesis
      by (cases x) simp_all
  next
    case False
    with 2 show ?thesis
      by (auto split: option.splits node.splits)
  qed
qed

lemma stat_upd:
  "stat fs p \<noteq> None \<Longrightarrow> \<forall>t. x \<noteq> Symlink t \<Longrightarrow> stat (fs(r \<mapsto> x)) p \<noteq> None"
  unfolding stat_def using resolve_upd [of "Suc SYMLOOP_MAX" fs p _ x r] by fastforce

lemma file_state_upd:
  "file_state fs p \<Longrightarrow> p \<noteq> r \<Longrightarrow> \<forall>t. x \<noteq> Symlink t \<Longrightarrow> file_state (fs(r \<mapsto> x)) p"
  unfolding file_state_def using stat_upd [of fs p x r] by auto

lemma only_at_simps [simp]:
  "only_at ps w (w'\<lparr>stdout := s\<rparr>) = only_at ps w w'"
  "only_at ps w (w'\<lparr>tmp_counter := n\<rparr>) = only_at ps w w'"
  "only_at ps w (w'\<lparr>clones := cl\<rparr>) = only_at ps w w'"
  "only_at ps w (w'\<lparr>http_gets := g\<rparr>) = only_at ps w w'"
  by (simp_all add: only_at_def)

lemma free_namesD:
  "free_names ps w \<Longrightarrow> files w (tmp_supply w k) = None"
  "free_names ps w \<Longrightarrow> p \<in> set ps \<Longrightarrow> p \<noteq> tmp_supply w k"
  by (auto simp: free_names_def)

lemma free_names_only_at:
  "only_at ps w w' \<Longrightarrow> free_names ps w \<Longrightarrow> free_names ps w'"
  by (auto simp: free_names_def only_at_def)

lemma block_success:
  fixes body :: "path \<Rightarrow> world \<Rightarrow> ExitCode result"
  assumes body: "\<And>f v. body f v =
      (if \<not> exists v (cp v) then (Inl AssertionError, v)
       else and_then (f_write f (tx v)) (\<lambda>_. CopyFile_run options f dp) v)"
    and fresh: "files w (tmp_supply w (tmp_counter w)) = None"
    and cp: "\<And>v. module_file v = module_file w \<Longrightarrow> cp v = src"
    and tx: "\<And>v. module_file v = module_file w \<Longrightarrow> tx v = c"
    and src: "files w src = Some (File orig)"
    and dst: "CopyFile_dst options dp = dst" "dst \<noteq> tmp_supply w (tmp_counter w)" "files w (parent dst) = Some Dir"
    and state: "file_state (files w) dst" and ow: "overwrite options"
  shows "with_NamedTemporaryFile body w =
    (Inr SUCCESS, w\<lparr>tmp_counter := Suc (tmp_counter w), files := (files w)(dst \<mapsto> File c)\<rparr>)"
proof -
  let ?t = "tmp_supply w (tmp_counter w)"
  let ?w1 = "w\<lparr>tmp_counter := Suc (tmp_counter w), files := (files w)(?t \<mapsto> File [])\<rparr>"
  let ?w2 = "?w1\<lparr>files := (files w)(?t \<mapsto> File c)\<rparr>"
  let ?w3 = "?w2\<lparr>files := (files w)(?t \<mapsto> File c, dst \<mapsto> File c)\<rparr>"
  have "src \<noteq> ?t" "parent dst \<noteq> ?t"
    using fresh src dst(3) by auto
  then have ex: "exists ?w1 src"
    using src by (simp add: exists_def stat_File)
  have tf: "files ?w2 ?t = Some (File c)" "stat (files ?w2) ?t = Some ?t" "exists ?w2 ?t"
    by (simp_all add: exists_def stat_File)
  have par: "files ?w2 (parent dst) = Some Dir"
    using dst(3) \<open>parent dst \<noteq> ?t\<close> by simp
  from state consider "files w dst = None" | c' where "files w dst = Some (File c')"
    | t where "files w dst = Some (Symlink t)" "stat (files w) dst \<noteq> None"
    by (auto simp: file_state_def)
  then have copy: "CopyFile_run options ?t dp ?w2 = (Inr SUCCESS, ?w3)"
  proof cases
    case 1
    then have absent: "files ?w2 dst = None"
      using dst(2) by simp
    then have "\<not> exists ?w2 dst"
      by (rule not_exists_absent)
    moreover have "copy ?t dst ?w2 = (Inr (), ?w2\<lparr>files := (files ?w2)(dst \<mapsto> File c)\<rparr>)"
      using tf(2,1) absent par by (rule copy_to_absent)
    ultimately show ?thesis
      using tf(3) by (simp add: CopyFile_run_def CopyFile_copy_def and_then_def dst(1))
  next
    case 2
    then have f: "files ?w2 dst = Some (File c')"
      using dst(2) by simp
    then have "exists ?w2 dst" "\<not> is_symlink ?w2 dst" "is_file ?w2 dst"
      by (simp_all add: exists_def stat_File is_symlink_def is_file_def del: fun_upd_apply)
    moreover have "copy ?t dst ?w2 = (Inr (), ?w2\<lparr>files := (files ?w2)(dst \<mapsto> File c)\<rparr>)"
      using tf(2,1) f dst(2) [symmetric] by (rule copy_over_file)
    ultimately show ?thesis
      using tf(3) ow by (simp add: CopyFile_run_def CopyFile_copy_def and_then_def dst(1))
  next
    case 3
    let ?u = "?w2\<lparr>files := (files ?w2)(dst := None)\<rparr>"
    have l: "files ?w2 dst = Some (Symlink t)"
      using 3(1) dst(2) by simp
    have "stat ((files w)(?t \<mapsto> File c)) dst \<noteq> None"
      using 3(2) by (rule stat_upd) simp
    then have e: "exists ?w2 dst" "is_symlink ?w2 dst"
      using l by (simp_all add: exists_def is_symlink_def del: fun_upd_apply)
    have u: "unlink dst ?w2 = (Inr (), ?u)"
      using l by (simp add: unlink_def del: fun_upd_apply)
    have "parent dst \<noteq> dst"
      using 3(1) dst(3) by auto
    then have "files ?u ?t = Some (File c)" "files ?u dst = None" "files ?u (parent dst) = Some Dir"
      using dst(2,3) \<open>parent dst \<noteq> ?t\<close> by simp_all
    moreover from this(1) have "stat (files ?u) ?t = Some ?t"
      by (rule stat_File)
    ultimately have "copy ?t dst ?u = (Inr (), ?u\<lparr>files := (files ?u)(dst \<mapsto> File c)\<rparr>)"
      by (intro copy_to_absent)
    then have "copy ?t dst ?u = (Inr (), ?w3)"
      by simp
    then show ?thesis
      using tf(3) ow e u by (simp add: CopyFile_run_def CopyFile_copy_def and_then_def dst(1)
          del: fun_upd_apply)
  qed
  have "body ?t ?w1 = (Inr SUCCESS, ?w3)"
    using ex copy by (simp add: body cp tx and_then_def f_write_def)
  moreover have "(files w)(?t \<mapsto> File c, dst \<mapsto> File c, ?t := None) = (files w)(dst \<mapsto> File c)"
    using fresh dst(2) by (auto simp: fun_eq_iff)
  ultimately show ?thesis
    using fresh by (simp add: with_NamedTemporaryFile_def NamedTemporaryFile_def Let_def)
qed

lemma grandchild_neq [simp]:
  "child (child d a) b \<noteq> d" "child (child (child d a) b) c \<noteq> d"
  "child (child d a) b \<noteq> child d c" "child (child (child d a) b) c \<noteq> child d e"
  "child (child (child d a) b) c \<noteq> child (child d a) e"
  by (cases d; simp add: child_def)+

lemma grandchild_neq2 [simp]:
  "d \<noteq> child (child d a) b" "d \<noteq> child (child (child d a) b) c"
  "child d c \<noteq> child (child d a) b" "child d e \<noteq> child (child (child d a) b) c"
  "child (child d a) e \<noteq> child (child (child d a) b) c"
  by (cases d; simp add: child_def)+

lemma RESOURCES_PATH_simps [simp]:
  "RESOURCES_PATH (w\<lparr>stdout := s\<rparr>) = RESOURCES_PATH w"
  "RESOURCES_PATH (w\<lparr>tmp_counter := n\<rparr>) = RESOURCES_PATH w"
  "RESOURCES_PATH (w\<lparr>clones := cl\<rparr>) = RESOURCES_PATH w"
  "RESOURCES_PATH (w\<lparr>http_gets := g\<rparr>) = RESOURCES_PATH w"
  "RESOURCES_PATH (w\<lparr>files := fs\<rparr>) = RESOURCES_PATH w"
  by (simp_all add: RESOURCES_PATH_def)

lemma wrapper_block:
  fixes body :: "path \<Rightarrow> world \<Rightarrow> ExitCode result"
  assumes body: "\<And>f v. body f v =
      (if \<not> exists v (child (RESOURCES_PATH v) n) then (Inl AssertionError, v)
       else and_then (f_write f (tpl (str (child (RESOURCES_PATH v) n))))
              (\<lambda>_. CopyFile_run options f (child (dest_dir options) n)) v)"
    and ow: "overwrite options" and ab: "is_absolute (dest_dir options)"
    and dir: "files w (dest_dir options) = Some Dir"
    and fresh: "free_names ps w" and mem: "child (dest_dir options) n \<in> set ps"
    and res: "files w (child (RESOURCES_PATH w) n) = Some (File orig)"
    and st: "file_state (files w) (child (dest_dir options) n)"
  shows "with_NamedTemporaryFile body w =
    (Inr SUCCESS, w\<lparr>tmp_counter := Suc (tmp_counter w),
       files := (files w)(child (dest_dir options) n \<mapsto>
         File (tpl (str (child (RESOURCES_PATH w) n))))\<rparr>)"
proof (rule block_success [where cp = "\<lambda>v. child (RESOURCES_PATH v) n"
      and tx = "\<lambda>v. tpl (str (child (RESOURCES_PATH v) n))" and options = options
      and dp = "child (dest_dir options) n" and orig = orig])
  show "body f v =
      (if \<not> exists v (child (RESOURCES_PATH v) n) then (Inl AssertionError, v)
       else and_then (f_write f (tpl (str (child (RESOURCES_PATH v) n))))
              (\<lambda>_. CopyFile_run options f (child (dest_dir options) n)) v)" for f v
    by (rule body)
  show "files w (tmp_supply w (tmp_counter w)) = None"
    using fresh by (rule free_namesD)
  show "child (RESOURCES_PATH v) n = child (RESOURCES_PATH w) n" if "module_file v = module_file w" for v
    using that by (simp add: RESOURCES_PATH_def)
  show "tpl (str (child (RESOURCES_PATH v) n)) = tpl (str (child (RESOURCES_PATH w) n))"
    if "module_file v = module_file w" for v
    using that by (simp add: RESOURCES_PATH_def)
  show "files w (child (RESOURCES_PATH w) n) = Some (File orig)"
    by (rule res)
  show "CopyFile_dst options (child (dest_dir options) n) = child (dest_dir options) n"
    using ab by (simp add: CopyFile_dst_def)
  show "child (dest_dir options) n \<noteq> tmp_supply w (tmp_counter w)"
    using fresh mem by (rule free_namesD)
  show "files w (parent (child (dest_dir options) n)) = Some Dir"
    using dir by simp
  show "file_state (files w) (child (dest_dir options) n)"
    by (rule st)
  show "overwrite options"
    by (rule ow)
qed

lemma Git_step:
  assumes "overwrite options" "is_absolute (dest_dir options)"
    and "files w (dest_dir options) = Some Dir"
    and "free_names ps w" "child (dest_dir options) ''.gitconfig'' \<in> set ps"
    and "files w (child (RESOURCES_PATH w) ''.gitconfig'') = Some (File orig)"
    and "file_state (files w) (child (dest_dir options) ''.gitconfig'')"
  shows "\<exists>s. Git_run options w = (Inr SUCCESS, w\<lparr>stdout := s, tmp_counter := Suc (tmp_counter w),
       files := (files w)(child (dest_dir options) ''.gitconfig'' \<mapsto>
         File (strip (format1 GIT_CONFIG_TEMPLATE (str (child (RESOURCES_PATH w) ''.gitconfig'')))))\<rparr>)"
proof -
  obtain s1 where "snd (program_exist ''git'' ''git'' w) = w\<lparr>stdout := s1\<rparr>"
    using program_exist_stdout by blast
  moreover obtain s2 where "snd (program_exist ''git'' ''git-lfs'' (w\<lparr>stdout := s1\<rparr>)) =
      w\<lparr>stdout := s1\<rparr>\<lparr>stdout := s2\<rparr>"
    using program_exist_stdout by blast
  ultimately have w0: "snd (program_exist ''git'' ''git-lfs''
      (snd (program_exist ''git'' ''git'' w))) = w\<lparr>stdout := s2\<rparr>"
    by simp
  have f: "free_names ps (w\<lparr>stdout := s2\<rparr>)"
    using assms(4) by (simp add: free_names_def)
  have "Git_run options w = (Inr SUCCESS, w\<lparr>stdout := s2\<rparr>
      \<lparr>tmp_counter := Suc (tmp_counter (w\<lparr>stdout := s2\<rparr>)),
       files := (files (w\<lparr>stdout := s2\<rparr>))(child (dest_dir options) ''.gitconfig'' \<mapsto>
         File (strip (format1 GIT_CONFIG_TEMPLATE
           (str (child (RESOURCES_PATH (w\<lparr>stdout := s2\<rparr>)) ''.gitconfig'')))))\<rparr>)"
    unfolding Git_run_def Let_def name.simps w0
    by (rule wrapper_block [where orig = orig and ps = ps
          and tpl = "\<lambda>p. strip (format1 GIT_CONFIG_TEMPLATE p)"])
      (use assms f in \<open>simp_all add: Path_names joinpath_child Git_dst_path_def\<close>)
  then show ?thesis
    by auto
qed

lemma Zsh_zshrc_step:
  assumes "overwrite options" "is_absolute (dest_dir options)"
    and "files w (dest_dir options) = Some Dir"
    and "free_names ps w" "child (dest_dir options) ''.zshrc'' \<in> set ps"
    and "files w (child (RESOURCES_PATH w) ''.zshrc'') = Some (File orig)"
    and "file_state (files w) (child (dest_dir options) ''.zshrc'')"
  shows "Zsh_zshrc options w = (Inr SUCCESS, w\<lparr>tmp_counter := Suc (tmp_counter w),
       files := (files w)(child (dest_dir options) ''.zshrc'' \<mapsto>
         File (strip (format1 ZSHRC_TEMPLATE (str (child (RESOURCES_PATH w) ''.zshrc'')))))\<rparr>)"
  unfolding Zsh_zshrc_def Let_def
  by (rule wrapper_block [where orig = orig and ps = ps
        and tpl = "\<lambda>p. strip (format1 ZSHRC_TEMPLATE p)"])
    (use assms in \<open>simp_all add: Path_names joinpath_child Zsh_dst_path_def\<close>)

lemma Zsh_zshenv_step:
  assumes "overwrite options" "is_absolute (dest_dir options)"
    and "files w (dest_dir options) = Some Dir"
    and "free_names ps w" "child (dest_dir options) ''.zshenv'' \<in> set ps"
    and "files w (child (RESOURCES_PATH w) ''.zshenv'') = Some (File orig)"
    and "file_state (files w) (child (dest_dir options) ''.zshenv'')"
  shows "Zsh_zshenv options w = (Inr SUCCESS, w\<lparr>tmp_counter := Suc (tmp_counter w),
       files := (files w)(child (dest_dir options) ''.zshenv'' \<mapsto>
         File (strip (format1 ZSHENV_TEMPLATE (str (child (RESOURCES_PATH w) ''.zshenv'')))))\<rparr>)"
  unfolding Zsh_zshenv_def Let_def
  by (rule wrapper_block [where orig = orig and ps = ps
        and tpl = "\<lambda>p. strip (format1 ZSHENV_TEMPLATE p)"])
    (use assms in \<open>simp_all add: Path_names joinpath_child Zsh_dst_path_def\<close>)

lemma Vim_vimrc_step:
  assumes "overwrite options" "is_absolute (dest_dir options)"
    and "files w (dest_dir options) = Some Dir"
    and "free_names ps w" "child (dest_dir options) ''.vimrc'' \<in> set ps"
    and "files w (child (RESOURCES_PATH w) ''.vimrc'') = Some (File orig)"
    and "file_state (files w) (child (dest_dir options) ''.vimrc'')"
  shows "Vim_vimrc options w = (Inr SUCCESS, w\<lparr>tmp_counter := Suc (tmp_counter w),
       files := (files w)(child (dest_dir options) ''.vimrc'' \<mapsto>
         File (format1 VIMRC_TEMPLATE (str (child (RESOURCES_PATH w) ''.vimrc''))))\<rparr>)"
  unfolding Vim_vimrc_def Let_def
  by (rule wrapper_block [where orig = orig and ps = ps and tpl = "\<lambda>p. format1 VIMRC_TEMPLATE p"])
    (use assms in \<open>simp_all add: Path_names joinpath_child Vim_dst_path_def\<close>)

lemma templates_nonempty:
  "strip (format1 GIT_CONFIG_TEMPLATE s) \<noteq> []"
  "strip (format1 ZSHRC_TEMPLATE s) \<noteq> []"
  "strip (format1 ZSHENV_TEMPLATE s) \<noteq> []"
  "format1 VIMRC_TEMPLATE s \<noteq> []"
  by (simp_all add: GIT_CONFIG_TEMPLATE_def ZSHRC_TEMPLATE_def ZSHENV_TEMPLATE_def
      VIMRC_TEMPLATE_def text_block_def strip_def isspace_def)

lemma dest_dir_not_written: "d \<notin> set (installer_paths i d)"
  by (cases i) simp_all

lemma installable_after:
  assumes "installable i options w" and "only_at (installer_paths i (dest_dir options)) w w'"
    and "dest_state i (dest_dir options) (files w')"
  shows "installable i options w'"
proof -
  let ?d = "dest_dir options"
  let ?ps = "installer_paths i ?d"
  have same: "files w' p = files w p" if "p \<notin> set ?ps" for p
    using assms(2) that by (simp add: only_at_def)
  have r: "RESOURCES_PATH w' = RESOURCES_PATH w"
    using assms(2) by (simp add: only_at_def RESOURCES_PATH_def)
  have "free_names ?ps w'" if "free_names ?ps w"
    using assms(2) that by (rule free_names_only_at)
  moreover have "network_ok i w'"
    using assms(1,2) by (simp add: installable_def network_ok_def only_at_def)
  moreover have "files w' ?d = Some Dir"
    using assms(1) same [OF dest_dir_not_written] by (simp add: installable_def)
  ultimately show ?thesis
    using assms(1,3) same unfolding installable_def r by fastforce
qed

lemma nonempty_file_File: "files w p = Some (File c) \<Longrightarrow> c \<noteq> [] \<Longrightarrow> nonempty_file w p"
  by (simp add: nonempty_file_def st_size_def stat_File)

lemma nonempty_file_link:
  "files w p = Some (Symlink t) \<Longrightarrow> is_absolute t \<Longrightarrow> files w t = Some (File c) \<Longrightarrow> c \<noteq> [] \<Longrightarrow>
     nonempty_file w p"
  using stat_Symlink_abs [of "files w" p t c] by (simp add: nonempty_file_def st_size_def)

lemma simple_step:
  assumes i: "(i, f) \<in> set simple_installers" and ow: "overwrite options"
    and dir: "files w (dest_dir options) = Some Dir"
    and res: "files w (child (RESOURCES_PATH w) f) = Some (File c)"
    and st: "link_state (files w) (child (dest_dir options) f)"
  shows "\<exists>s. run i options w = (Inr SUCCESS, w\<lparr>stdout := s,
      files := (files w)(child (dest_dir options) f \<mapsto> Symlink (child (RESOURCES_PATH w) f))\<rparr>)"
proof -
  let ?src = "child (RESOURCES_PATH w) f"
  let ?dst = "child (dest_dir options) f"
  obtain s where run: "run i options w = SymLink_run options f (w\<lparr>stdout := s\<rparr>)"
    using simple_installer_run [OF i] by blast
  let ?w0 = "w\<lparr>stdout := s\<rparr>"
  have paths: "SymLink_src w f = ?src" "SymLink_dst options f = ?dst"
    using simple_installer_paths [OF i] by simp_all
  have src: "exists ?w0 (SymLink_src ?w0 f)"
    using res by (simp add: paths exists_def stat_File)
  have par: "files ?w0 (parent (SymLink_dst options f)) = Some Dir"
    using dir by (simp add: paths)
  have "SymLink_run options f ?w0 =
      (Inr SUCCESS, ?w0\<lparr>files := (files ?w0)(SymLink_dst options f \<mapsto> Symlink (SymLink_src ?w0 f))\<rparr>)"
  proof (cases "files w ?dst")
    case None
    then have "files ?w0 (SymLink_dst options f) = None"
      by (simp add: paths)
    with src show ?thesis
      using par by (rule SymLink_run_fresh)
  next
    case (Some x)
    with st obtain t where "files w ?dst = Some (Symlink t)" "stat (files w) ?dst \<noteq> None"
      by (auto simp: link_state_def)
    then have "exists ?w0 (SymLink_dst options f)" "is_symlink ?w0 (SymLink_dst options f)"
      by (simp_all add: exists_def is_symlink_def paths)
    then show ?thesis
      using src ow par by (intro SymLink_run_replace(2))
  qed
  with run show ?thesis
    by (auto simp: paths)
qed

lemma Zsh_clone_fresh:
  assumes "clone_ok w" "files w (dest_dir options) = Some Dir"
    and "files w (child (dest_dir options) ''.zsh-completions'') = None"
  shows "Zsh_clone options w =
    (Inr (), w\<lparr>files := (files w)(child (dest_dir options) ''.zsh-completions'' \<mapsto> Dir),
       clones := clones w @ [(ZSH_COMPLETIONS_URL, child (dest_dir options) ''.zsh-completions'')]\<rparr>)"
proof -
  let ?zc = "child (dest_dir options) ''.zsh-completions''"
  have zc: "Zsh_completions options = ?zc"
    by (simp add: Zsh_completions_def Path_names joinpath_child)
  have "os_mkdir ?zc w = (Inr (), w\<lparr>files := (files w)(?zc \<mapsto> Dir)\<rparr>)"
    using assms(2,3) by (simp add: os_mkdir_def)
  then have "mkdir_parents False ?zc w = (Inr (), w\<lparr>files := (files w)(?zc \<mapsto> Dir)\<rparr>)"
    by (subst mkdir_parents.simps) simp
  then show ?thesis
    using assms(1,3) by (simp add: Zsh_clone_def zc not_exists_absent clone_from_def Let_def)
qed

lemma Zsh_clone_there:
  "stat (files w) (child (dest_dir options) ''.zsh-completions'') \<noteq> None \<Longrightarrow>
     Zsh_clone options w = (Inr (), w)"
  by (auto simp: Zsh_clone_def Zsh_completions_def Path_names joinpath_child exists_def Let_def)

lemma Vim_mkdir_fresh:
  assumes "files w (dest_dir options) = Some Dir"
    and "files w (child (dest_dir options) ''.vim'') = None"
    and "files w (child (child (dest_dir options) ''.vim'') ''autoload'') = None"
  shows "Vim_mkdir options w =
    (Inr (), w\<lparr>files := (files w)(child (dest_dir options) ''.vim'' \<mapsto> Dir,
       child (child (dest_dir options) ''.vim'') ''autoload'' \<mapsto> Dir)\<rparr>)"
proof -
  let ?v = "child (dest_dir options) ''.vim''"
  let ?a = "child ?v ''autoload''"
  let ?w1 = "w\<lparr>files := (files w)(?v \<mapsto> Dir)\<rparr>"
  have 1: "os_mkdir ?a w = (Inl FileNotFoundError, w)"
    using assms(2) by (simp add: os_mkdir_def)
  have "os_mkdir ?v w = (Inr (), ?w1)"
    using assms(1,2) by (simp add: os_mkdir_def)
  then have 2: "mkdir_parents True ?v w = (Inr (), ?w1)"
    by (subst mkdir_parents.simps) simp
  have "os_mkdir ?a ?w1 = (Inr (), ?w1\<lparr>files := (files ?w1)(?a \<mapsto> Dir)\<rparr>)"
    using assms(3) by (simp add: os_mkdir_def)
  then have 3: "mkdir False ?a ?w1 = (Inr (), ?w1\<lparr>files := (files ?w1)(?a \<mapsto> Dir)\<rparr>)"
    by (simp add: mkdir_def)
  have "parent ?a \<noteq> ?a"
    by simp
  with 1 2 3 have "mkdir_parents False ?a w = (Inr (), ?w1\<lparr>files := (files ?w1)(?a \<mapsto> Dir)\<rparr>)"
    by (subst mkdir_parents.simps) simp
  then show ?thesis
    using assms(3) by (simp add: Vim_mkdir_def Vim_paths not_exists_absent)
qed

lemma Vim_mkdir_half:
  assumes "files w (child (dest_dir options) ''.vim'') = Some Dir"
    and "files w (child (child (dest_dir options) ''.vim'') ''autoload'') = None"
  shows "Vim_mkdir options w =
    (Inr (), w\<lparr>files := (files w)(child (child (dest_dir options) ''.vim'') ''autoload'' \<mapsto> Dir)\<rparr>)"
proof -
  let ?a = "child (child (dest_dir options) ''.vim'') ''autoload''"
  have "os_mkdir ?a w = (Inr (), w\<lparr>files := (files w)(?a \<mapsto> Dir)\<rparr>)"
    using assms by (simp add: os_mkdir_def)
  then have "mkdir_parents False ?a w = (Inr (), w\<lparr>files := (files w)(?a \<mapsto> Dir)\<rparr>)"
    by (subst mkdir_parents.simps) simp
  then show ?thesis
    using assms(2) by (simp add: Vim_mkdir_def Vim_paths not_exists_absent)
qed

lemma Vim_mkdir_there:
  "files w (child (child (dest_dir options) ''.vim'') ''autoload'') = Some Dir \<Longrightarrow>
     Vim_mkdir options w = (Inr (), w)"
  by (simp add: Vim_mkdir_def Vim_paths exists_def stat_Dir)

lemma Vim_mkdir_cases:
  assumes "files w (dest_dir options) = Some Dir"
    and "files w (child (child (dest_dir options) ''.vim'') ''autoload'') = Some Dir \<or>
      files w (child (child (dest_dir options) ''.vim'') ''autoload'') = None \<and>
      (files w (child (dest_dir options) ''.vim'') = None \<or>
       files w (child (dest_dir options) ''.vim'') = Some Dir)"
  shows "\<exists>fs1. Vim_mkdir options w = (Inr (), w\<lparr>files := fs1\<rparr>) \<and>
      fs1 (child (child (dest_dir options) ''.vim'') ''autoload'') = Some Dir \<and>
      (fs1 = files w \<or>
       fs1 = (files w)(child (dest_dir options) ''.vim'' \<mapsto> Dir,
                       child (child (dest_dir options) ''.vim'') ''autoload'' \<mapsto> Dir) \<or>
       fs1 = (files w)(child (child (dest_dir options) ''.vim'') ''autoload'' \<mapsto> Dir))"
proof -
  let ?v = "child (dest_dir options) ''.vim''"
  let ?a = "child ?v ''autoload''"
  from assms(2) consider "files w ?a = Some Dir" | "files w ?a = None" "files w ?v = None"
    | "files w ?a = None" "files w ?v = Some Dir"
    by auto
  then show ?thesis
  proof cases
    case 1
    then have "Vim_mkdir options w = (Inr (), w\<lparr>files := files w\<rparr>)"
      by (simp add: Vim_mkdir_there)
    with 1 show ?thesis
      by blast
  next
    case 2
    then have "Vim_mkdir options w = (Inr (), w\<lparr>files := (files w)(?v \<mapsto> Dir, ?a \<mapsto> Dir)\<rparr>)"
      using assms(1) by (simp add: Vim_mkdir_fresh)
    then show ?thesis
      by (intro exI [of _ "(files w)(?v \<mapsto> Dir, ?a \<mapsto> Dir)"]) simp
  next
    case 3
    then have "Vim_mkdir options w = (Inr (), w\<lparr>files := (files w)(?a \<mapsto> Dir)\<rparr>)"
      by (simp add: Vim_mkdir_half)
    then show ?thesis
      by (intro exI [of _ "(files w)(?a \<mapsto> Dir)"]) simp
  qed
qed

lemma Vim_plug_overwrite:
  assumes "overwrite options" "http_response w = Inr (200, body)"
    and "files w (child (child (dest_dir options) ''.vim'') ''autoload'') = Some Dir"
    and "files w (Vim_plug_vim options) = None \<or> (\<exists>c. files w (Vim_plug_vim options) = Some (File c))"
  shows "Vim_plug options w =
    (Inr (), w\<lparr>files := (files w)(Vim_plug_vim options \<mapsto> File body),
       http_gets := http_gets w @ [PLUG_VIM_URL]\<rparr>)"
proof -
  let ?w1 = "w\<lparr>http_gets := http_gets w @ [PLUG_VIM_URL]\<rparr>"
  have "parent (Vim_plug_vim options) = child (child (dest_dir options) ''.vim'') ''autoload''"
    by (simp add: Vim_paths)
  then have "resolve_w (Suc SYMLOOP_MAX) (files ?w1) (Vim_plug_vim options) = Inr (Vim_plug_vim options)"
    using assms(3,4) by auto
  then have "write_text (Vim_plug_vim options) body ?w1 =
      (Inr (), ?w1\<lparr>files := (files ?w1)(Vim_plug_vim options \<mapsto> File body)\<rparr>)"
    by (simp add: write_text_def del: resolve_w.simps)
  then show ?thesis
    using assms(1,2) by (simp add: Vim_plug_def requests_get_def and_then_def)
qed

lemma simple_run_step:
  assumes i: "(i, f) \<in> set simple_installers"
    and inst: "installable i options w" and ow: "overwrite options"
  shows "\<exists>w'. run i options w = (Inr SUCCESS, w') \<and> installable i options w' \<and>
    (\<forall>p \<in> set (destination_files i (dest_dir options)). nonempty_file w' p)"
proof -
  let ?d = "dest_dir options"
  let ?src = "child (RESOURCES_PATH w) f"
  let ?dst = "child ?d f"
  have facts: "resource_names i = [f]" "destination_files i ?d = [?dst]"
    "installer_paths i ?d = [?dst]" "dest_state i ?d = (\<lambda>fs. link_state fs ?dst)"
    using i by (auto simp: simple_installers_def)
  from inst obtain c where dir: "files w ?d = Some Dir" and c: "c \<noteq> []"
    and res: "files w ?src = Some (File c)" and ne: "?src \<noteq> ?dst"
    and st: "link_state (files w) ?dst"
    by (auto simp: installable_def facts)
  obtain s where run: "run i options w =
      (Inr SUCCESS, w\<lparr>stdout := s, files := (files w)(?dst \<mapsto> Symlink ?src)\<rparr>)"
    using simple_step [OF i ow dir res st] by blast
  let ?w' = "w\<lparr>stdout := s, files := (files w)(?dst \<mapsto> Symlink ?src)\<rparr>"
  have "stat (files ?w') ?dst = Some ?src"
    using res ne by (intro stat_Symlink_abs [where c = c]) simp_all
  then have "dest_state i ?d (files ?w')"
    by (simp add: facts link_state_def)
  moreover have "only_at (installer_paths i ?d) w ?w'"
    by (simp add: only_at_def facts)
  ultimately have "installable i options ?w'"
    using installable_after [OF inst] by blast
  moreover have "nonempty_file ?w' ?dst"
    using res c ne by (intro nonempty_file_link [where t = ?src and c = c]) simp_all
  ultimately show ?thesis
    using run by (simp add: facts)
qed

lemma Git_run_step:
  assumes inst: "installable Git options w" and ow: "overwrite options"
  shows "\<exists>w'. run Git options w = (Inr SUCCESS, w') \<and> installable Git options w' \<and>
    (\<forall>p \<in> set (destination_files Git (dest_dir options)). nonempty_file w' p)"
proof -
  let ?d = "dest_dir options"
  let ?dst = "child ?d ''.gitconfig''"
  let ?c = "strip (format1 GIT_CONFIG_TEMPLATE (str (child (RESOURCES_PATH w) ''.gitconfig'')))"
  from inst obtain orig where dir: "files w ?d = Some Dir" and ab: "is_absolute ?d"
    and fresh: "free_names [?dst] w"
    and res: "files w (child (RESOURCES_PATH w) ''.gitconfig'') = Some (File orig)"
    and st: "file_state (files w) ?dst"
    by (auto simp: installable_def)
  have mem: "?dst \<in> set [?dst]"
    by simp
  obtain s where run: "Git_run options w =
      (Inr SUCCESS, w\<lparr>stdout := s, tmp_counter := Suc (tmp_counter w),
         files := (files w)(?dst \<mapsto> File ?c)\<rparr>)"
    using Git_step [OF ow ab dir fresh mem res st] by blast
  let ?w' = "w\<lparr>stdout := s, tmp_counter := Suc (tmp_counter w), files := (files w)(?dst \<mapsto> File ?c)\<rparr>"
  have c: "?c \<noteq> []"
    by (rule templates_nonempty)
  have "only_at (installer_paths Git ?d) w ?w'"
    by (simp add: only_at_def)
  moreover have "dest_state Git ?d (files ?w')"
    by (simp add: file_state_def)
  ultimately have "installable Git options ?w'"
    by (rule installable_after [OF inst])
  moreover have "nonempty_file ?w' ?dst"
    using c by (intro nonempty_file_File [where c = ?c]) simp_all
  ultimately show ?thesis
    using run by simp
qed

lemma CommandLineHelper_run_step:
  assumes inst: "installable CommandLineHelper options w"
  shows "\<exists>w'. run CommandLineHelper options w = (Inr SUCCESS, w') \<and>
    installable CommandLineHelper options w' \<and>
    (\<forall>p \<in> set (destination_files CommandLineHelper (dest_dir options)). nonempty_file w' p)"
proof -
  obtain s1 where "snd (program_exist ''command-line helper'' ''peco'' w) = w\<lparr>stdout := s1\<rparr>"
    using program_exist_stdout by blast
  moreover obtain s2 where "snd (program_exist ''command-line helper'' ''fzf'' (w\<lparr>stdout := s1\<rparr>)) =
      w\<lparr>stdout := s1\<rparr>\<lparr>stdout := s2\<rparr>"
    using program_exist_stdout by blast
  moreover obtain s3 where "snd (program_exist ''command-line helper'' ''direnv'' (w\<lparr>stdout := s2\<rparr>)) =
      w\<lparr>stdout := s2\<rparr>\<lparr>stdout := s3\<rparr>"
    using program_exist_stdout by blast
  ultimately have run: "run CommandLineHelper options w = (Inr SUCCESS, w\<lparr>stdout := s3\<rparr>)"
    by (simp add: CommandLineHelper_run_def Let_def)
  have "only_at (installer_paths CommandLineHelper (dest_dir options)) w (w\<lparr>stdout := s3\<rparr>)"
    by (simp add: only_at_def)
  then have "installable CommandLineHelper options (w\<lparr>stdout := s3\<rparr>)"
    by (rule installable_after [OF inst]) simp
  with run show ?thesis
    by simp
qed

lemma Zsh_run_step:
  assumes inst: "installable Zsh options w" and ow: "overwrite options"
  shows "\<exists>w'. run Zsh options w = (Inr SUCCESS, w') \<and> installable Zsh options w' \<and>
    (\<forall>p \<in> set (destination_files Zsh (dest_dir options)). nonempty_file w' p)"
proof -
  let ?d = "dest_dir options"
  let ?r = "RESOURCES_PATH w"
  let ?zc = "child ?d ''.zsh-completions''"
  let ?rc = "child ?d ''.zshrc''"
  let ?env = "child ?d ''.zshenv''"
  let ?ps = "[?zc, ?rc, ?env]"
  let ?c1 = "strip (format1 ZSHRC_TEMPLATE (str (child ?r ''.zshrc'')))"
  let ?c2 = "strip (format1 ZSHENV_TEMPLATE (str (child ?r ''.zshenv'')))"
  have ps: "installer_paths Zsh ?d = ?ps"
    by simp
  from inst obtain o1 o2 where dir: "files w ?d = Some Dir" and ab: "is_absolute ?d"
    and fresh: "free_names ?ps w" and net: "clone_ok w"
    and res1: "files w (child ?r ''.zshrc'') = Some (File o1)"
    and out1: "child ?r ''.zshrc'' \<notin> set ?ps"
    and res2: "files w (child ?r ''.zshenv'') = Some (File o2)"
    and out2: "child ?r ''.zshenv'' \<notin> set ?ps"
    and zc: "files w ?zc = None \<or> stat (files w) ?zc \<noteq> None"
    and st1: "file_state (files w) ?rc" and st2: "file_state (files w) ?env"
    by (auto simp: installable_def network_ok_def)
  have ne: "child ?r ''.zshrc'' \<noteq> ?zc" "child ?r ''.zshrc'' \<noteq> ?rc" "child ?r ''.zshrc'' \<noteq> ?env"
    "child ?r ''.zshenv'' \<noteq> ?zc" "child ?r ''.zshenv'' \<noteq> ?rc" "child ?r ''.zshenv'' \<noteq> ?env"
    using out1 out2 by auto
  obtain s where w0: "snd (program_exist ''zsh'' ''zsh'' w) = w\<lparr>stdout := s\<rparr>"
    using program_exist_stdout by blast
  let ?w0 = "w\<lparr>stdout := s\<rparr>"
  obtain fs1 cl where clone: "Zsh_clone options ?w0 = (Inr (), ?w0\<lparr>files := fs1, clones := cl\<rparr>)"
    and fs1: "fs1 = files w \<or> fs1 = (files w)(?zc \<mapsto> Dir)" and zc1: "stat fs1 ?zc \<noteq> None"
  proof (cases "files w ?zc")
    case None
    then have "Zsh_clone options ?w0 = (Inr (), ?w0\<lparr>files := (files w)(?zc \<mapsto> Dir),
        clones := clones ?w0 @ [(ZSH_COMPLETIONS_URL, ?zc)]\<rparr>)"
      using Zsh_clone_fresh [of ?w0 options] net dir by simp
    moreover have "stat ((files w)(?zc \<mapsto> Dir)) ?zc \<noteq> None"
      by (simp add: stat_Dir)
    ultimately show ?thesis
      using that by blast
  next
    case (Some x)
    with zc have e: "stat (files w) ?zc \<noteq> None"
      by simp
    then have "Zsh_clone options ?w0 = (Inr (), ?w0)"
      by (simp add: Zsh_clone_there)
    then have "Zsh_clone options ?w0 = (Inr (), ?w0\<lparr>files := files w, clones := clones ?w0\<rparr>)"
      by simp
    with e show ?thesis
      using that by blast
  qed
  have same1: "fs1 p = files w p" if "p \<noteq> ?zc" for p
    using fs1 that by auto
  have st1': "file_state fs1 ?rc" and st2': "file_state fs1 ?env"
    using fs1 st1 st2 by (auto intro: file_state_upd)
  let ?w1 = "?w0\<lparr>files := fs1, clones := cl\<rparr>"
  let ?w2 = "?w1\<lparr>tmp_counter := Suc (tmp_counter ?w1), files := fs1(?rc \<mapsto> File ?c1)\<rparr>"
  let ?w3 = "?w2\<lparr>tmp_counter := Suc (tmp_counter ?w2), files := fs1(?rc \<mapsto> File ?c1, ?env \<mapsto> File ?c2)\<rparr>"
  have ou1: "only_at ?ps w ?w1"
    by (simp add: only_at_def same1)
  have ou2: "only_at ?ps w ?w2"
    by (simp add: only_at_def same1)
  have ou3: "only_at ?ps w ?w3"
    by (simp add: only_at_def same1)
  have "Zsh_zshrc options ?w1 = (Inr SUCCESS, ?w1\<lparr>tmp_counter := Suc (tmp_counter ?w1),
      files := (files ?w1)(?rc \<mapsto> File (strip (format1 ZSHRC_TEMPLATE
        (str (child (RESOURCES_PATH ?w1) ''.zshrc'')))))\<rparr>)"
  proof (rule Zsh_zshrc_step [OF ow ab, where ps = ?ps])
    show "files ?w1 ?d = Some Dir"
      using dir by (simp add: same1)
    show "free_names ?ps ?w1"
      using ou1 fresh by (rule free_names_only_at)
    show "?rc \<in> set ?ps"
      by simp
    show "files ?w1 (child (RESOURCES_PATH ?w1) ''.zshrc'') = Some (File o1)"
      using res1 ne by (simp add: same1)
    show "file_state (files ?w1) ?rc"
      using st1' by simp
  qed
  then have b1: "Zsh_zshrc options ?w1 = (Inr SUCCESS, ?w2)"
    by simp
  have "Zsh_zshenv options ?w2 = (Inr SUCCESS, ?w2\<lparr>tmp_counter := Suc (tmp_counter ?w2),
      files := (files ?w2)(?env \<mapsto> File (strip (format1 ZSHENV_TEMPLATE
        (str (child (RESOURCES_PATH ?w2) ''.zshenv'')))))\<rparr>)"
  proof (rule Zsh_zshenv_step [OF ow ab, where ps = ?ps])
    show "files ?w2 ?d = Some Dir"
      using dir by (simp add: same1)
    show "free_names ?ps ?w2"
      using ou2 fresh by (rule free_names_only_at)
    show "?env \<in> set ?ps"
      by simp
    show "files ?w2 (child (RESOURCES_PATH ?w2) ''.zshenv'') = Some (File o2)"
      using res2 ne by (simp add: same1)
    have "file_state (fs1(?rc \<mapsto> File ?c1)) ?env"
      using st2' by (rule file_state_upd) simp_all
    then show "file_state (files ?w2) ?env"
      by simp
  qed
  then have b2: "Zsh_zshenv options ?w2 = (Inr SUCCESS, ?w3)"
    by simp
  have "Zsh_copies options ?w1 = (Inr SUCCESS, ?w3)"
    using b1 b2 by (simp add: Zsh_copies_def and_then_def)
  then have run: "run Zsh options w = (Inr SUCCESS, ?w3)"
    using clone by (simp add: Zsh_run_unfold w0 and_then_def)
  have c: "?c1 \<noteq> []" "?c2 \<noteq> []"
    by (rule templates_nonempty)+
  have "stat (fs1(?rc \<mapsto> File ?c1)) ?zc \<noteq> None"
    using zc1 by (rule stat_upd) simp
  then have "stat (fs1(?rc \<mapsto> File ?c1, ?env \<mapsto> File ?c2)) ?zc \<noteq> None"
    by (rule stat_upd) simp
  then have "dest_state Zsh ?d (files ?w3)"
    by (simp add: file_state_def)
  with ou3 have "installable Zsh options ?w3"
    unfolding ps [symmetric] by (rule installable_after [OF inst])
  moreover have "nonempty_file ?w3 ?rc" "nonempty_file ?w3 ?env"
    using c by (auto intro!: nonempty_file_File)
  ultimately show ?thesis
    using run by simp
qed

lemma Vim_run_step:
  assumes inst: "installable Vim options w" and ow: "overwrite options"
  shows "\<exists>w'. run Vim options w = (Inr SUCCESS, w') \<and> installable Vim options w' \<and>
    (\<forall>p \<in> set (destination_files Vim (dest_dir options)). nonempty_file w' p)"
proof -
  let ?d = "dest_dir options"
  let ?r = "RESOURCES_PATH w"
  let ?v = "child ?d ''.vim''"
  let ?a = "child ?v ''autoload''"
  let ?pl = "child ?a ''plug.vim''"
  let ?rc = "child ?d ''.vimrc''"
  let ?ps = "[?v, ?a, ?pl, ?rc]"
  let ?c = "format1 VIMRC_TEMPLATE (str (child ?r ''.vimrc''))"
  have ps: "installer_paths Vim ?d = ?ps"
    by simp
  from inst obtain orig body where dir: "files w ?d = Some Dir" and ab: "is_absolute ?d"
    and fresh: "free_names ?ps w" and net: "http_response w = Inr (200, body)"
    and res: "files w (child ?r ''.vimrc'') = Some (File orig)"
    and out: "child ?r ''.vimrc'' \<notin> set ?ps"
    and dirs: "files w ?a = Some Dir \<or> files w ?a = None \<and> (files w ?v = None \<or> files w ?v = Some Dir)"
    and plug: "files w ?pl = None \<or> (\<exists>c. files w ?pl = Some (File c))"
    and st: "file_state (files w) ?rc"
    by (auto simp: installable_def network_ok_def)
  have ne: "child ?r ''.vimrc'' \<noteq> ?v" "child ?r ''.vimrc'' \<noteq> ?a" "child ?r ''.vimrc'' \<noteq> ?pl"
    "child ?r ''.vimrc'' \<noteq> ?rc"
    using out by auto
  obtain s where w0: "snd (program_exist ''vim'' ''vim'' w) = w\<lparr>stdout := s\<rparr>"
    using program_exist_stdout by blast
  let ?w0 = "w\<lparr>stdout := s\<rparr>"
  obtain fs1 where mk: "Vim_mkdir options ?w0 = (Inr (), ?w0\<lparr>files := fs1\<rparr>)"
    and a1: "fs1 ?a = Some Dir"
    and fs1: "fs1 = files w \<or> fs1 = (files w)(?v \<mapsto> Dir, ?a \<mapsto> Dir) \<or> fs1 = (files w)(?a \<mapsto> Dir)"
    using Vim_mkdir_cases [of ?w0 options] dir dirs by auto
  have same1: "fs1 p = files w p" if "p \<noteq> ?v" "p \<noteq> ?a" for p
    using fs1 that by auto
  have st1: "file_state fs1 ?rc"
  proof -
    have "file_state ((files w)(?a \<mapsto> Dir)) ?rc"
      using st by (rule file_state_upd) simp_all
    moreover have "file_state ((files w)(?v \<mapsto> Dir)) ?rc"
      using st by (rule file_state_upd) simp_all
    then have "file_state ((files w)(?v \<mapsto> Dir, ?a \<mapsto> Dir)) ?rc"
      by (rule file_state_upd) simp_all
    ultimately show ?thesis
      using fs1 st by auto
  qed
  let ?w1 = "?w0\<lparr>files := fs1\<rparr>"
  let ?w2 = "?w1\<lparr>files := fs1(?pl \<mapsto> File body), http_gets := http_gets ?w1 @ [PLUG_VIM_URL]\<rparr>"
  let ?w3 = "?w2\<lparr>tmp_counter := Suc (tmp_counter ?w2), files := fs1(?pl \<mapsto> File body, ?rc \<mapsto> File ?c)\<rparr>"
  have "Vim_plug options ?w1 =
      (Inr (), ?w1\<lparr>files := (files ?w1)(Vim_plug_vim options \<mapsto> File body),
         http_gets := http_gets ?w1 @ [PLUG_VIM_URL]\<rparr>)"
  proof (rule Vim_plug_overwrite [OF ow])
    show "http_response ?w1 = Inr (200, body)"
      using net by simp
    show "files ?w1 ?a = Some Dir"
      using a1 by simp
    show "files ?w1 (Vim_plug_vim options) = None \<or>
        (\<exists>c. files ?w1 (Vim_plug_vim options) = Some (File c))"
      using plug by (simp add: Vim_paths same1)
  qed
  then have pl: "Vim_plug options ?w1 = (Inr (), ?w2)"
    by (simp add: Vim_paths)
  have ou2: "only_at ?ps w ?w2"
    by (simp add: only_at_def same1)
  have ou3: "only_at ?ps w ?w3"
    by (simp add: only_at_def same1)
  have "Vim_vimrc options ?w2 = (Inr SUCCESS, ?w2\<lparr>tmp_counter := Suc (tmp_counter ?w2),
      files := (files ?w2)(?rc \<mapsto> File (format1 VIMRC_TEMPLATE
        (str (child (RESOURCES_PATH ?w2) ''.vimrc''))))\<rparr>)"
  proof (rule Vim_vimrc_step [OF ow ab, where ps = ?ps])
    show "files ?w2 ?d = Some Dir"
      using dir by (simp add: same1)
    show "free_names ?ps ?w2"
      using ou2 fresh by (rule free_names_only_at)
    show "?rc \<in> set ?ps"
      by simp
    show "files ?w2 (child (RESOURCES_PATH ?w2) ''.vimrc'') = Some (File orig)"
      using res ne by (simp add: same1)
    have "file_state (fs1(?pl \<mapsto> File body)) ?rc"
      using st1 by (rule file_state_upd) simp_all
    then show "file_state (files ?w2) ?rc"
      by simp
  qed
  then have rc: "Vim_vimrc options ?w2 = (Inr SUCCESS, ?w3)"
    by simp
  have run: "run Vim options w = (Inr SUCCESS, ?w3)"
    using mk pl rc by (simp add: Vim_run_def Let_def w0 and_then_def)
  have c: "?c \<noteq> []"
    by (rule templates_nonempty)
  have "dest_state Vim ?d (files ?w3)"
    using a1 by (simp add: file_state_def)
  with ou3 have "installable Vim options ?w3"
    unfolding ps [symmetric] by (rule installable_after [OF inst])
  moreover have "nonempty_file ?w3 ?rc"
    using c by (auto intro!: nonempty_file_File)
  ultimately show ?thesis
    using run by simp
qed

lemma run_step:
  assumes "installable i options w" and "overwrite options"
  shows "\<exists>w'. run i options w = (Inr SUCCESS, w') \<and> installable i options w' \<and>
    (\<forall>p \<in> set (destination_files i (dest_dir options)). nonempty_file w' p)"
proof (cases i)
  case TMux
  then have "(i, ''.tmux.conf'') \<in> set simple_installers"
    by (simp add: simple_installers_def)
  then show ?thesis
    using assms by (rule simple_run_step)
next
  case Vimperator
  then have "(i, ''.vimperatorrc'') \<in> set simple_installers"
    by (simp add: simple_installers_def)
  then show ?thesis
    using assms by (rule simple_run_step)
next
  case Gdb
  then have "(i, ''.gdbinit'') \<in> set simple_installers"
    by (simp add: simple_installers_def)
  then show ?thesis
    using assms by (rule simple_run_step)
next
  case Fvwm2
  then have "(i, ''.fvwm2rc'') \<in> set simple_installers"
    by (simp add: simple_installers_def)
  then show ?thesis
    using assms by (rule simple_run_step)
next
  case Git
  with assms show ?thesis
    using Git_run_step by blast
next
  case Zsh
  with assms show ?thesis
    using Zsh_run_step by blast
next
  case Vim
  with assms show ?thesis
    using Vim_run_step by blast
next
  case CommandLineHelper
  with assms show ?thesis
    using CommandLineHelper_run_step by blast
qed

lemma run_times_installable:
  "installable i options w \<Longrightarrow> overwrite options \<Longrightarrow>
     \<forall>x \<in> set (run_times i options n w).
       fst x = Inr SUCCESS \<and>
       (\<forall>p \<in> set (destination_files i (dest_dir options)). nonempty_file (snd x) p)"
proof (induction n arbitrary: w)
  case 0
  then show ?case by simp
next
  case (Suc n)
  from run_step [OF Suc.prems] obtain w' where w': "run i options w = (Inr SUCCESS, w')"
    "installable i options w'"
    "\<forall>p \<in> set (destination_files i (dest_dir options)). nonempty_file w' p"
    by blast
  with Suc.IH [OF w'(2) Suc.prems(2)] show ?case
    by simp
qed

lemma length_run_times: "length (run_times i options n w) = n"
  by (induction n arbitrary: w) simp_all

lemma demo_resources_path:
  "RESOURCES_PATH (demo_world es) = PosixPath True [''opt'', ''dotfiles'', ''dotfiles'', ''resources'']"
  by (simp add: RESOURCES_PATH_def demo_world_def Path_names joinpath_def parent_def)

lemma installable_examples:
  "overwrite replace"
  "installable Zsh replace fresh_home"
  "installable Vim replace fresh_home"
  "installable Gdb replace used_home"
  "installable Git replace used_home"
proof -
  show "overwrite replace"
    by (simp add: replace_def)
  have d: "dest_dir replace = home" "is_absolute home"
    by (simp_all add: replace_def home_def)
  have r: "RESOURCES_PATH fresh_home = PosixPath True [''opt'', ''dotfiles'', ''dotfiles'', ''resources'']"
    "RESOURCES_PATH used_home = PosixPath True [''opt'', ''dotfiles'', ''dotfiles'', ''resources'']"
    by (simp_all add: fresh_home_def used_home_def home_tree_def demo_resources_path)
  have dir: "files fresh_home home = Some Dir" "files used_home home = Some Dir"
    by code_simp+
  have net: "network_ok i fresh_home" "network_ok i used_home" for i
    by (simp_all add: network_ok_def fresh_home_def used_home_def home_tree_def demo_world_def)
  have tmp: "free_names (installer_paths i home) fresh_home"
    "free_names (installer_paths i home) used_home" for i
    by (cases i; simp add: free_names_def fresh_home_def used_home_def home_tree_def demo_world_def
        demo_resources_def home_def child_def)+
  have res: "\<exists>c. c \<noteq> [] \<and> files fresh_home (child (RESOURCES_PATH fresh_home) f) = Some (File c) \<and>
      child (RESOURCES_PATH fresh_home) f \<notin> set (installer_paths i home)"
    "\<exists>c. c \<noteq> [] \<and> files used_home (child (RESOURCES_PATH used_home) f) = Some (File c) \<and>
      child (RESOURCES_PATH used_home) f \<notin> set (installer_paths i home)"
    if "f \<in> set (resource_names i)" for f i
    using that unfolding r
    by (cases i; auto simp: fresh_home_def used_home_def home_tree_def demo_world_def
        demo_resources_def child_def home_def)+
  have free: "files fresh_home (child home ''.zsh-completions'') = None"
    "files fresh_home (child home ''.zshrc'') = None" "files fresh_home (child home ''.zshenv'') = None"
    "files fresh_home (child home ''.vim'') = None"
    "files fresh_home (child (child home ''.vim'') ''autoload'') = None"
    "files fresh_home (child (child (child home ''.vim'') ''autoload'') ''plug.vim'') = None"
    "files fresh_home (child home ''.vimrc'') = None"
    by code_simp+
  have used: "files used_home (child home ''.gdbinit'') = Some (Symlink (PosixPath False [''.bashrc'']))"
    "stat (files used_home) (child home ''.gdbinit'') = Some (child home ''.bashrc'')"
    "files used_home (child home ''.gitconfig'') = Some (File ''[user]'')"
    by code_simp+
  have st: "dest_state Zsh home (files fresh_home)" "dest_state Vim home (files fresh_home)"
    "dest_state Gdb home (files used_home)" "dest_state Git home (files used_home)"
    by (simp_all add: link_state_def file_state_def free used)
  show "installable Zsh replace fresh_home"
    unfolding installable_def d(1)
    using dir(1) net(1) [of Zsh] tmp(1) [of Zsh] res(1) [of _ Zsh] st(1) d(2) by blast
  show "installable Vim replace fresh_home"
    unfolding installable_def d(1)
    using dir(1) net(1) [of Vim] tmp(1) [of Vim] res(1) [of _ Vim] st(2) d(2) by blast
  show "installable Gdb replace used_home"
    unfolding installable_def d(1)
    using dir(2) net(2) [of Gdb] tmp(2) [of Gdb] res(2) [of _ Gdb] st(3) d(2) by blast
  show "installable Git replace used_home"
    unfolding installable_def d(1)
    using dir(2) net(2) [of Git] tmp(2) [of Git] res(2) [of _ Git] st(4) d(2) by blast
qed

text \<open>
  Claim C4, as the code has it. With \<open>overwrite\<close> on and starting from a world in which the
  installer can be run (\<open>installable\<close>), any number of runs of the installer, one after the
  other, all return \<open>SUCCESS\<close>, and after each run every destination file of the installer is
  non-empty. The destination directory may hold anything else; at a destination path there
  may be what a run replaces: a symbolic link that resolves, and for the copying installers
  a regular file.
\<close>

theorem overwrite_runs_succeed:
  assumes "overwrite options" and "installable i options w"
  shows "length (run_times i options n w) = n \<and>
    (\<forall>x \<in> set (run_times i options n w).
       fst x = Inr SUCCESS \<and>
       (\<forall>p \<in> set (destination_files i (dest_dir options)). nonempty_file (snd x) p))"
  using run_times_installable [OF assms(2,1)] by (simp add: length_run_times)

text \<open>
  Three runs of the Zsh installer and two of the Vim installer in the empty \<^verbatim>\<open>/home/u\<close>;
  in the home directory in use, two runs of the gdb installer over the link at
  \<^verbatim>\<open>.gdbinit\<close> and two of the Git installer over the old \<^verbatim>\<open>.gitconfig\<close>.
\<close>

theorem overwrite_runs_succeed_witness:
  "length (run_times Zsh replace 3 fresh_home) = 3 \<and>
   list_all (\<lambda>x. fst x = Inr SUCCESS \<and> nonempty_file (snd x) (child home ''.zshrc'') \<and>
                  nonempty_file (snd x) (child home ''.zshenv''))
     (run_times Zsh replace 3 fresh_home) \<and>
   is_symlink used_home (child home ''.gdbinit'') \<and>
   list_all (\<lambda>x. fst x = Inr SUCCESS \<and> nonempty_file (snd x) (child home ''.gdbinit''))
     (run_times Gdb replace 2 used_home) \<and>
   files used_home (child home ''.gitconfig'') = Some (File ''[user]'') \<and>
   list_all (\<lambda>x. fst x = Inr SUCCESS \<and> nonempty_file (snd x) (child home ''.gitconfig''))
     (run_times Git replace 2 used_home) \<and>
   list_all (\<lambda>x. fst x = Inr SUCCESS \<and> nonempty_file (snd x) (child home ''.vimrc''))
     (run_times Vim replace 2 fresh_home)"
proof -
  have d: "dest_dir replace = home"
    by (simp add: replace_def)
  have "is_symlink used_home (child home ''.gdbinit'')"
    "files used_home (child home ''.gitconfig'') = Some (File ''[user]'')"
    by code_simp+
  then show ?thesis
    using overwrite_runs_succeed [OF installable_examples(1,2), of 3]
      overwrite_runs_succeed [OF installable_examples(1,4), of 2]
      overwrite_runs_succeed [OF installable_examples(1,5), of 2]
      overwrite_runs_succeed [OF installable_examples(1,3), of 2]
    by (simp add: list_all_iff d)
qed

text \<open>
  The claim as stated, for any starting state, fails: with a directory at \<^verbatim>\<open>.gitconfig\<close> the
  Git installer returns \<open>SKIP\<close> every time, and with a regular file or a dangling link at
  \<^verbatim>\<open>.gdbinit\<close> the gdb installer raises \<^verbatim>\<open>FileExistsError\<close> every time.
\<close>

theorem overwrite_runs_counterexample:
  "overwrite replace \<and>
   map fst (run_times Git replace 2 (home_with ''.gitconfig'' Dir)) = [Inr SKIP, Inr SKIP] \<and>
   map fst (run_times Gdb replace 2 (home_with ''.gdbinit'' (File ''old''))) =
     [Inl FileExistsError, Inl FileExistsError] \<and>
   map fst (run_times Gdb replace 2 (home_with ''.gdbinit'' (Symlink (PosixPath False [''gone''])))) =
     [Inl FileExistsError, Inl FileExistsError]"
  by code_simp

end
